theory Spec2Isabelle
  imports Main "HOL-Library.Word"
begin

unbundle bit_operations_syntax

section \<open>The IPv4 configuration aggregate of NetworkManager\<close>

text \<open>
  A shallow embedding of \<^verbatim>\<open>nm-ip4-config.c\<close>: the private data of an
  \<^verbatim>\<open>NMIP4Config\<close> object, its mutation primitives
  (\<^verbatim>\<open>nm_ip4_config_add_address\<close>, \<^verbatim>\<open>nm_ip4_config_add_route\<close>, ...) and the
  reconciliation operations capture, commit, merge, subtract, replace and equal.

  A \<^verbatim>\<open>guint32\<close> is a \<open>32 word\<close>, a C \<^verbatim>\<open>int\<close> that is only compared is an
  \<open>int\<close>, a \<^verbatim>\<open>GArray\<close> or \<^verbatim>\<open>GPtrArray\<close> is a list, a \<^verbatim>\<open>char *\<close> that may
  be \<^verbatim>\<open>NULL\<close> is a \<open>string option\<close>. Every function takes the object it mutates and
  returns the new one. The GObject property notifications (\<^verbatim>\<open>_NOTIFY\<close>) and the D-Bus
  path of the object are not part of the model.
\<close>

subsection \<open>Data\<close>

type_synonym guint32 = "32 word"
type_synonym byte = "8 word"

text \<open>
  Modelled from the spec: the enumeration \<^verbatim>\<open>NMIPConfigSource\<close> is declared in a header
  that is not among the sources. It is a C enumeration whose values are compared with
  \<^verbatim>\<open>>\<close> and \<^verbatim>\<open>MAX\<close>, so a source is its number; the spec orders the priorities
  ``unknown < kernel-observed < ...'', which makes unknown 0 and kernel-observed 1.
\<close>

type_synonym NMIPConfigSource = nat

definition NM_IP_CONFIG_SOURCE_UNKNOWN :: NMIPConfigSource where
  "NM_IP_CONFIG_SOURCE_UNKNOWN = 0"

definition NM_IP_CONFIG_SOURCE_KERNEL :: NMIPConfigSource where
  "NM_IP_CONFIG_SOURCE_KERNEL = 1"

text \<open>
  Modelled from the spec: the structures \<^verbatim>\<open>NMPlatformIP4Address\<close> and
  \<^verbatim>\<open>NMPlatformIP4Route\<close> of the revision of \<^verbatim>\<open>nm-platform.h\<close> that
  \<^verbatim>\<open>nm-ip4-config.c\<close> is compiled against are not among the sources (the header there
  is older and lacks source, lifetime, preferred, timestamp and label). The records
  have the fields the functions below read and write, under the names used there
  with \<open>a_\<close> or \<open>r_\<close> in front (the fields of all records share one name
  space). Addresses are kept in network byte order, as \<^verbatim>\<open>in_addr_t\<close> is.
\<close>

record NMPlatformIP4Address =
  a_ifindex :: int
  a_source :: NMIPConfigSource
  a_address :: guint32
  a_plen :: int
  a_timestamp :: guint32
  a_lifetime :: guint32
  a_preferred :: guint32
  a_label :: string

record NMPlatformIP4Route =
  r_ifindex :: int
  r_source :: NMIPConfigSource
  r_network :: guint32
  r_plen :: int
  r_gateway :: guint32
  r_metric :: guint32

text \<open>\<^verbatim>\<open>NMIP4ConfigPrivate\<close>, without the D-Bus path.\<close>

record NMIP4Config =
  never_default :: bool
  gateway :: guint32
  addresses :: "NMPlatformIP4Address list"
  routes :: "NMPlatformIP4Route list"
  nameservers :: "guint32 list"
  domains :: "string list"
  searches :: "string list"
  mss :: guint32
  nis :: "guint32 list"
  nis_domain :: "string option"
  wins :: "guint32 list"
  mtu :: guint32
  mtu_source :: NMIPConfigSource

text \<open>
  \<^verbatim>\<open>nm_ip4_config_new\<close> followed by \<^verbatim>\<open>nm_ip4_config_init\<close>: GObject zeroes the
  private data (the MTU source is the unknown one), the initialiser creates the empty
  arrays.
\<close>

definition nm_ip4_config_new :: NMIP4Config where
  "nm_ip4_config_new =
     \<lparr>never_default = False, gateway = 0, addresses = [], routes = [], nameservers = [],
      domains = [], searches = [], mss = 0, nis = [], nis_domain = None, wins = [],
      mtu = 0, mtu_source = 0\<rparr>"

text \<open>
  A failed \<^verbatim>\<open>g_return_if_fail\<close> logs a critical message and returns at once; a failed
  \<^verbatim>\<open>g_assert\<close> aborts the process. A function with such a check returns
  \<open>Inl\<close> of the failed check, or \<open>Inr\<close> of the new object.
\<close>

datatype g_failure = G_return_if_fail | G_assert

text \<open>
  What the caller of a \<^verbatim>\<open>void\<close> function is left with: the object as it was when
  the check failed, the new object otherwise.
\<close>

fun or_unchanged :: "'a \<Rightarrow> g_failure + 'a \<Rightarrow> 'a" where
  "or_unchanged old (Inl _) = old"
| "or_unchanged old (Inr new) = new"

subsection \<open>Scalar attributes\<close>

definition nm_ip4_config_set_never_default :: "NMIP4Config \<Rightarrow> bool \<Rightarrow> NMIP4Config" where
  "nm_ip4_config_set_never_default config nd = config\<lparr>never_default := nd\<rparr>"

definition nm_ip4_config_set_gateway :: "NMIP4Config \<Rightarrow> guint32 \<Rightarrow> NMIP4Config" where
  "nm_ip4_config_set_gateway config gw =
     (if gateway config \<noteq> gw then config\<lparr>gateway := gw\<rparr> else config)"

definition nm_ip4_config_set_mss :: "NMIP4Config \<Rightarrow> guint32 \<Rightarrow> NMIP4Config" where
  "nm_ip4_config_set_mss config m = config\<lparr>mss := m\<rparr>"

definition nm_ip4_config_set_nis_domain :: "NMIP4Config \<Rightarrow> string option \<Rightarrow> NMIP4Config" where
  "nm_ip4_config_set_nis_domain config d = config\<lparr>nis_domain := d\<rparr>"

definition nm_ip4_config_set_mtu ::
  "NMIP4Config \<Rightarrow> guint32 \<Rightarrow> NMIPConfigSource \<Rightarrow> NMIP4Config" where
  "nm_ip4_config_set_mtu config m source =
     (if source > mtu_source config then config\<lparr>mtu := m, mtu_source := source\<rparr>
      else if source = mtu_source config \<and> (mtu config = 0 \<or> mtu config > m)
           then config\<lparr>mtu := m\<rparr>
      else config)"

subsection \<open>Helpers that are not among the sources\<close>

text \<open>
  \<^verbatim>\<open>ntohl\<close> of the C library, on a little-endian host: the four bytes are swapped.
\<close>

definition ntohl :: "guint32 \<Rightarrow> guint32" where
  "ntohl n = push_bit 24 (n AND 0xFF) OR push_bit 8 (n AND 0xFF00)
             OR (drop_bit 8 n AND 0xFF00) OR drop_bit 24 n"

text \<open>
  Modelled from the spec: \<^verbatim>\<open>nm_platform_ip4_address_cmp\<close> and
  \<^verbatim>\<open>nm_platform_ip4_route_cmp\<close> are defined in \<^verbatim>\<open>nm-platform.c\<close>, which is not
  among the sources. The spec speaks of two entries being ``fully identical''; the
  callers only test the result against zero. The result is 0 for records that agree
  in every field and 1 otherwise.
\<close>

definition nm_platform_ip4_address_cmp ::
  "NMPlatformIP4Address \<Rightarrow> NMPlatformIP4Address \<Rightarrow> int" where
  "nm_platform_ip4_address_cmp a b = (if a = b then 0 else 1)"

definition nm_platform_ip4_route_cmp ::
  "NMPlatformIP4Route \<Rightarrow> NMPlatformIP4Route \<Rightarrow> int" where
  "nm_platform_ip4_route_cmp a b = (if a = b then 0 else 1)"

text \<open>
  Modelled from the spec: the macro \<^verbatim>\<open>NM_PLATFORM_IP_ROUTE_IS_DEFAULT\<close> is not among
  the sources; ``a route with \<^verbatim>\<open>prefix_length == 0\<close> is a default route''.
\<close>

definition NM_PLATFORM_IP_ROUTE_IS_DEFAULT :: "NMPlatformIP4Route \<Rightarrow> bool" where
  "NM_PLATFORM_IP_ROUTE_IS_DEFAULT route = (r_plen route = 0)"

text \<open>
  Modelled from the spec: \<^verbatim>\<open>nm_platform_ip_address_cmp_expiry\<close> and the constant
  \<^verbatim>\<open>NM_PLATFORM_LIFETIME_PERMANENT\<close> are not among the sources, and the spec says
  no more than that the ``computed expiry'' of two addresses is compared, a lifetime
  being ``seconds or permanent''. The functions that call the comparison take it as
  their first argument (\<open>cmp_expiry\<close>), so that what is proved of them holds for
  whatever the comparison computes. The comparison defined here is used for concrete
  configurations only: it compares the instants at which the two addresses expire,
  \<^verbatim>\<open>timestamp + lifetime\<close>, an address with the permanent lifetime never expiring,
  and is negative, zero or positive as the first address expires earlier, at the same
  time or later.
\<close>

definition NM_PLATFORM_LIFETIME_PERMANENT :: guint32 where
  "NM_PLATFORM_LIFETIME_PERMANENT = 0xFFFFFFFF"

definition expiry :: "NMPlatformIP4Address \<Rightarrow> nat option" where
  "expiry a = (if a_lifetime a = NM_PLATFORM_LIFETIME_PERMANENT then None
               else Some (unat (a_timestamp a) + unat (a_lifetime a)))"

definition nm_platform_ip_address_cmp_expiry ::
  "NMPlatformIP4Address \<Rightarrow> NMPlatformIP4Address \<Rightarrow> int" where
  "nm_platform_ip_address_cmp_expiry a b =
     (case expiry a of
        None \<Rightarrow> (case expiry b of None \<Rightarrow> 0 | Some tb \<Rightarrow> 1)
      | Some ta \<Rightarrow> (case expiry b of None \<Rightarrow> - 1
                     | Some tb \<Rightarrow> (if ta < tb then - 1 else if tb < ta then 1 else 0)))"

subsection \<open>Comparing addresses and routes\<close>

text \<open>
  \<^verbatim>\<open>same_prefix\<close> shifts both addresses, in host byte order, right by
  \<^verbatim>\<open>32 - plen\<close>. The operand is a 32-bit unsigned integer, so C defines the
  shift for a count from 0 to 31 only, that is for a prefix length from 1 to 32. For
  any other prefix length the behaviour of the function is undefined, and the result
  here is \<open>None\<close>.
\<close>

definition same_prefix :: "guint32 \<Rightarrow> guint32 \<Rightarrow> int \<Rightarrow> bool option" where
  "same_prefix address1 address2 plen =
     (if 1 \<le> plen \<and> plen \<le> 32 then
        let masked1 = drop_bit (nat (32 - plen)) (ntohl address1);
            masked2 = drop_bit (nat (32 - plen)) (ntohl address2)
        in Some (masked1 = masked2)
      else None)"

definition addresses_are_duplicate ::
  "NMPlatformIP4Address \<Rightarrow> NMPlatformIP4Address \<Rightarrow> bool \<Rightarrow> bool" where
  "addresses_are_duplicate a b consider_plen =
     (a_address a = a_address b \<and> (\<not> consider_plen \<or> a_plen a = a_plen b))"

definition routes_are_duplicate ::
  "NMPlatformIP4Route \<Rightarrow> NMPlatformIP4Route \<Rightarrow> bool \<Rightarrow> bool" where
  "routes_are_duplicate a b consider_gateway_and_metric =
     (r_network a = r_network b \<and> r_plen a = r_plen b
      \<and> (\<not> consider_gateway_and_metric
          \<or> (r_gateway a = r_gateway b \<and> r_metric a = r_metric b)))"

subsection \<open>Addresses\<close>

definition nm_ip4_config_reset_addresses :: "NMIP4Config \<Rightarrow> NMIP4Config" where
  "nm_ip4_config_reset_addresses config =
     (if length (addresses config) \<noteq> 0 then config\<lparr>addresses := []\<rparr> else config)"

text \<open>
  The body of the loop of \<^verbatim>\<open>nm_ip4_config_add_address\<close> at the first stored item
  with the address of \<open>new\<close>: what the item is afterwards.
\<close>

definition add_address_item ::
  "(NMPlatformIP4Address \<Rightarrow> NMPlatformIP4Address \<Rightarrow> int)
   \<Rightarrow> NMPlatformIP4Address \<Rightarrow> NMPlatformIP4Address \<Rightarrow> NMPlatformIP4Address" where
  "add_address_item cmp_expiry item new =
     (if nm_platform_ip4_address_cmp item new = 0 then item
      else
        let item_old = item;
            item1 = new\<lparr>a_source := max (a_source item_old) (a_source new)\<rparr>
        in if (a_source new = NM_IP_CONFIG_SOURCE_KERNEL \<and> a_source new \<noteq> a_source item_old)
              \<or> cmp_expiry item_old new > 0
           then item1\<lparr>a_timestamp := a_timestamp item_old,
                      a_lifetime := a_lifetime item_old,
                      a_preferred := a_preferred item_old\<rparr>
           else item1)"

text \<open>The loop: the first duplicate is updated, and without one \<open>new\<close> is appended.\<close>

fun add_address_items ::
  "(NMPlatformIP4Address \<Rightarrow> NMPlatformIP4Address \<Rightarrow> int)
   \<Rightarrow> NMPlatformIP4Address list \<Rightarrow> NMPlatformIP4Address \<Rightarrow> NMPlatformIP4Address list" where
  "add_address_items cmp_expiry [] new = [new]"
| "add_address_items cmp_expiry (item # rest) new =
     (if addresses_are_duplicate item new False
      then add_address_item cmp_expiry item new # rest
      else item # add_address_items cmp_expiry rest new)"

definition nm_ip4_config_add_address ::
  "(NMPlatformIP4Address \<Rightarrow> NMPlatformIP4Address \<Rightarrow> int)
   \<Rightarrow> NMIP4Config \<Rightarrow> NMPlatformIP4Address \<Rightarrow> NMIP4Config" where
  "nm_ip4_config_add_address cmp_expiry config new =
     config\<lparr>addresses := add_address_items cmp_expiry (addresses config) new\<rparr>"

definition g_array_remove_index :: "'a list \<Rightarrow> nat \<Rightarrow> 'a list" where
  "g_array_remove_index xs i = take i xs @ drop (Suc i) xs"

definition nm_ip4_config_del_address :: "NMIP4Config \<Rightarrow> nat \<Rightarrow> g_failure + NMIP4Config" where
  "nm_ip4_config_del_address config i =
     (if \<not> i < length (addresses config) then Inl G_return_if_fail
      else Inr (config\<lparr>addresses := g_array_remove_index (addresses config) i\<rparr>))"

subsection \<open>Routes\<close>

definition nm_ip4_config_reset_routes :: "NMIP4Config \<Rightarrow> NMIP4Config" where
  "nm_ip4_config_reset_routes config =
     (if length (routes config) \<noteq> 0 then config\<lparr>routes := []\<rparr> else config)"

definition add_route_item :: "NMPlatformIP4Route \<Rightarrow> NMPlatformIP4Route \<Rightarrow> NMPlatformIP4Route" where
  "add_route_item item new =
     (if nm_platform_ip4_route_cmp item new = 0 then item
      else let old_source = r_source item
           in new\<lparr>r_source := max old_source (r_source new)\<rparr>)"

fun add_route_items ::
  "NMPlatformIP4Route list \<Rightarrow> NMPlatformIP4Route \<Rightarrow> NMPlatformIP4Route list" where
  "add_route_items [] new = [new]"
| "add_route_items (item # rest) new =
     (if routes_are_duplicate item new False
      then add_route_item item new # rest
      else item # add_route_items rest new)"

definition nm_ip4_config_add_route ::
  "NMIP4Config \<Rightarrow> NMPlatformIP4Route \<Rightarrow> g_failure + NMIP4Config" where
  "nm_ip4_config_add_route config new =
     (if \<not> r_plen new > 0 then Inl G_return_if_fail
      else Inr (config\<lparr>routes := add_route_items (routes config) new\<rparr>))"

definition nm_ip4_config_del_route :: "NMIP4Config \<Rightarrow> nat \<Rightarrow> g_failure + NMIP4Config" where
  "nm_ip4_config_del_route config i =
     (if \<not> i < length (routes config) then Inl G_return_if_fail
      else Inr (config\<lparr>routes := g_array_remove_index (routes config) i\<rparr>))"

subsection \<open>Nameservers, domains, searches, NIS and WINS servers\<close>

definition nm_ip4_config_reset_nameservers :: "NMIP4Config \<Rightarrow> NMIP4Config" where
  "nm_ip4_config_reset_nameservers config =
     (if length (nameservers config) \<noteq> 0 then config\<lparr>nameservers := []\<rparr> else config)"

definition nm_ip4_config_add_nameserver :: "NMIP4Config \<Rightarrow> guint32 \<Rightarrow> g_failure + NMIP4Config" where
  "nm_ip4_config_add_nameserver config new =
     (if \<not> new \<noteq> 0 then Inl G_return_if_fail
      else if new \<in> set (nameservers config) then Inr config
      else Inr (config\<lparr>nameservers := nameservers config @ [new]\<rparr>))"

definition nm_ip4_config_del_nameserver :: "NMIP4Config \<Rightarrow> nat \<Rightarrow> g_failure + NMIP4Config" where
  "nm_ip4_config_del_nameserver config i =
     (if \<not> i < length (nameservers config) then Inl G_return_if_fail
      else Inr (config\<lparr>nameservers := g_array_remove_index (nameservers config) i\<rparr>))"

definition nm_ip4_config_reset_domains :: "NMIP4Config \<Rightarrow> NMIP4Config" where
  "nm_ip4_config_reset_domains config =
     (if length (domains config) \<noteq> 0 then config\<lparr>domains := []\<rparr> else config)"

definition nm_ip4_config_add_domain :: "NMIP4Config \<Rightarrow> string \<Rightarrow> g_failure + NMIP4Config" where
  "nm_ip4_config_add_domain config domain =
     (if \<not> domain \<noteq> [] then Inl G_return_if_fail
      else if domain \<in> set (domains config) then Inr config
      else Inr (config\<lparr>domains := domains config @ [domain]\<rparr>))"

definition nm_ip4_config_del_domain :: "NMIP4Config \<Rightarrow> nat \<Rightarrow> g_failure + NMIP4Config" where
  "nm_ip4_config_del_domain config i =
     (if \<not> i < length (domains config) then Inl G_return_if_fail
      else Inr (config\<lparr>domains := g_array_remove_index (domains config) i\<rparr>))"

definition nm_ip4_config_reset_searches :: "NMIP4Config \<Rightarrow> NMIP4Config" where
  "nm_ip4_config_reset_searches config =
     (if length (searches config) \<noteq> 0 then config\<lparr>searches := []\<rparr> else config)"

definition nm_ip4_config_add_search :: "NMIP4Config \<Rightarrow> string \<Rightarrow> g_failure + NMIP4Config" where
  "nm_ip4_config_add_search config new =
     (if \<not> new \<noteq> [] then Inl G_return_if_fail
      else if new \<in> set (searches config) then Inr config
      else Inr (config\<lparr>searches := searches config @ [new]\<rparr>))"

definition nm_ip4_config_del_search :: "NMIP4Config \<Rightarrow> nat \<Rightarrow> g_failure + NMIP4Config" where
  "nm_ip4_config_del_search config i =
     (if \<not> i < length (searches config) then Inl G_return_if_fail
      else Inr (config\<lparr>searches := g_array_remove_index (searches config) i\<rparr>))"

definition nm_ip4_config_reset_nis_servers :: "NMIP4Config \<Rightarrow> NMIP4Config" where
  "nm_ip4_config_reset_nis_servers config = config\<lparr>nis := []\<rparr>"

definition nm_ip4_config_add_nis_server :: "NMIP4Config \<Rightarrow> guint32 \<Rightarrow> NMIP4Config" where
  "nm_ip4_config_add_nis_server config n =
     (if n \<in> set (nis config) then config else config\<lparr>nis := nis config @ [n]\<rparr>)"

definition nm_ip4_config_del_nis_server :: "NMIP4Config \<Rightarrow> nat \<Rightarrow> g_failure + NMIP4Config" where
  "nm_ip4_config_del_nis_server config i =
     (if \<not> i < length (nis config) then Inl G_return_if_fail
      else Inr (config\<lparr>nis := g_array_remove_index (nis config) i\<rparr>))"

definition nm_ip4_config_reset_wins :: "NMIP4Config \<Rightarrow> NMIP4Config" where
  "nm_ip4_config_reset_wins config =
     (if length (wins config) \<noteq> 0 then config\<lparr>wins := []\<rparr> else config)"

definition nm_ip4_config_add_wins :: "NMIP4Config \<Rightarrow> guint32 \<Rightarrow> g_failure + NMIP4Config" where
  "nm_ip4_config_add_wins config w =
     (if \<not> w \<noteq> 0 then Inl G_return_if_fail
      else if w \<in> set (wins config) then Inr config
      else Inr (config\<lparr>wins := wins config @ [w]\<rparr>))"

definition nm_ip4_config_del_wins :: "NMIP4Config \<Rightarrow> nat \<Rightarrow> g_failure + NMIP4Config" where
  "nm_ip4_config_del_wins config i =
     (if \<not> i < length (wins config) then Inl G_return_if_fail
      else Inr (config\<lparr>wins := g_array_remove_index (wins config) i\<rparr>))"

subsection \<open>Capture\<close>

text \<open>
  \<^verbatim>\<open>nm_ip4_config_capture_resolv_conf\<close>. The nameservers read from
  \<^verbatim>\<open>resolv.conf\<close> are an argument: \<open>None\<close> when the file gave nothing
  (\<^verbatim>\<open>read_ns\<close> is \<^verbatim>\<open>NULL\<close>), and for each entry the address that
  \<^verbatim>\<open>inet_pton\<close> parsed, or \<open>None\<close> where it failed.
\<close>

fun capture_resolv_conf_loop ::
  "guint32 list \<Rightarrow> guint32 option list \<Rightarrow> bool \<Rightarrow> guint32 list \<times> bool" where
  "capture_resolv_conf_loop ns_array [] changed = (ns_array, changed)"
| "capture_resolv_conf_loop ns_array (s # rest) changed =
     (case s of
        None \<Rightarrow> capture_resolv_conf_loop ns_array rest changed
      | Some ns \<Rightarrow>
          if ns = 0 then capture_resolv_conf_loop ns_array rest changed
          else if ns \<in> set ns_array then capture_resolv_conf_loop ns_array rest changed
          else capture_resolv_conf_loop (ns_array @ [ns]) rest True)"

definition nm_ip4_config_capture_resolv_conf ::
  "guint32 list \<Rightarrow> guint32 option list option \<Rightarrow> guint32 list \<times> bool" where
  "nm_ip4_config_capture_resolv_conf ns_array read_ns =
     (case read_ns of
        None \<Rightarrow> (ns_array, False)
      | Some entries \<Rightarrow> capture_resolv_conf_loop ns_array entries False)"

text \<open>
  The first loop of \<^verbatim>\<open>nm_ip4_config_capture\<close>: it walks the routes, removes the
  default routes and tracks the gateway, the lowest metric seen and whether a default
  route was seen. The result is the routes that stay, and the three variables.
\<close>

fun capture_default_routes ::
  "NMPlatformIP4Route list \<Rightarrow> guint32 \<Rightarrow> guint32 \<Rightarrow> bool
   \<Rightarrow> NMPlatformIP4Route list \<times> guint32 \<times> guint32 \<times> bool" where
  "capture_default_routes [] gw lowest_metric has_gateway = ([], gw, lowest_metric, has_gateway)"
| "capture_default_routes (route # rest) gw lowest_metric has_gateway =
     (if NM_PLATFORM_IP_ROUTE_IS_DEFAULT route then
        (if r_metric route < lowest_metric
         then capture_default_routes rest (r_gateway route) (r_metric route) True
         else capture_default_routes rest gw lowest_metric True)
      else
        (case capture_default_routes rest gw lowest_metric has_gateway of
           (kept, vars) \<Rightarrow> (route # kept, vars)))"

text \<open>The test of the second loop: a host route to the gateway.\<close>

definition is_gateway_host_route :: "guint32 \<Rightarrow> NMPlatformIP4Route \<Rightarrow> bool" where
  "is_gateway_host_route gw route = (r_plen route = 32 \<and> r_network route = gw \<and> r_gateway route = 0)"

text \<open>
  The platform is an argument: the master of the link, the addresses and the routes
  it reports for the link, and the nameservers of \<^verbatim>\<open>resolv.conf\<close>. The result is
  \<open>None\<close> where the function returns \<^verbatim>\<open>NULL\<close>.
\<close>

definition nm_ip4_config_capture ::
  "int \<Rightarrow> NMPlatformIP4Address list \<Rightarrow> NMPlatformIP4Route list
   \<Rightarrow> guint32 option list option \<Rightarrow> bool \<Rightarrow> NMIP4Config option" where
  "nm_ip4_config_capture master platform_addresses platform_routes read_ns capture_resolv_conf =
     (if master > 0 then None
      else
        let config = nm_ip4_config_new\<lparr>addresses := platform_addresses, routes := platform_routes\<rparr>
        in case capture_default_routes (routes config) (gateway config) 0xFFFFFFFF False of
             (kept, gw, lowest_metric, has_gateway) \<Rightarrow>
               let config1 = config\<lparr>routes := kept, gateway := gw\<rparr>;
                   config2 = (if has_gateway
                              then config1\<lparr>routes := filter (\<lambda>route. \<not> is_gateway_host_route (gateway config1) route)
                                                         (routes config1)\<rparr>
                              else config1);
                   config3 = (if addresses config2 \<noteq> [] \<and> has_gateway \<and> capture_resolv_conf
                              then config2\<lparr>nameservers :=
                                     fst (nm_ip4_config_capture_resolv_conf (nameservers config2) read_ns)\<rparr>
                              else config2)
               in Some config3)"

subsection \<open>Commit\<close>

text \<open>
  The loop of \<^verbatim>\<open>nm_ip4_config_destination_is_direct\<close>. \<^verbatim>\<open>&&\<close> calls
  \<^verbatim>\<open>same_prefix\<close> only for an address whose prefix length is at most \<open>plen\<close>;
  where that call is undefined, so is the loop.
\<close>

fun destination_is_direct_loop ::
  "NMPlatformIP4Address list \<Rightarrow> guint32 \<Rightarrow> int \<Rightarrow> bool option" where
  "destination_is_direct_loop [] network plen = Some False"
| "destination_is_direct_loop (item # rest) network plen =
     (if a_plen item \<le> plen then
        (case same_prefix (a_address item) network (a_plen item) of
           None \<Rightarrow> None
         | Some True \<Rightarrow> Some True
         | Some False \<Rightarrow> destination_is_direct_loop rest network plen)
      else destination_is_direct_loop rest network plen)"

definition nm_ip4_config_destination_is_direct ::
  "NMIP4Config \<Rightarrow> guint32 \<Rightarrow> int \<Rightarrow> bool option" where
  "nm_ip4_config_destination_is_direct config network plen =
     destination_is_direct_loop (addresses config) network plen"

text \<open>
  The loop of \<^verbatim>\<open>nm_ip4_config_commit\<close> that fills the array given to the platform.
  \<^verbatim>\<open>nm_ip4_config_destination_is_direct\<close> is called for a route with gateway 0
  only.
\<close>

fun commit_routes ::
  "NMIP4Config \<Rightarrow> NMPlatformIP4Route list \<Rightarrow> NMPlatformIP4Route list option" where
  "commit_routes config [] = Some []"
| "commit_routes config (route # rest) =
     (if r_gateway route = 0 then
        (case nm_ip4_config_destination_is_direct config (r_network route) (r_plen route) of
           None \<Rightarrow> None
         | Some True \<Rightarrow> commit_routes config rest
         | Some False \<Rightarrow> map_option (Cons route) (commit_routes config rest))
      else map_option (Cons route) (commit_routes config rest))"

text \<open>
  What the platform is asked to do. \<^verbatim>\<open>nm_ip4_config_commit\<close> returns the calls it
  made, in order, and its result; \<open>None\<close> where its behaviour is undefined. The
  platform's answers are arguments: whether \<^verbatim>\<open>nm_platform_ip4_route_sync\<close>
  succeeds, and the MTU of a link.
\<close>

datatype platform_call =
    Ip4_address_sync int "NMPlatformIP4Address list" guint32
  | Ip4_route_sync int "NMPlatformIP4Route list"
  | Link_set_mtu int guint32

definition nm_ip4_config_commit ::
  "(int \<Rightarrow> NMPlatformIP4Route list \<Rightarrow> bool) \<Rightarrow> (int \<Rightarrow> guint32)
   \<Rightarrow> NMIP4Config \<Rightarrow> int \<Rightarrow> guint32 \<Rightarrow> (platform_call list \<times> bool) option" where
  "nm_ip4_config_commit route_sync link_get_mtu config ifindex default_route_metric =
     (if \<not> ifindex > 0 then Some ([], False)
      else
        case commit_routes config (routes config) of
          None \<Rightarrow> None
        | Some synced \<Rightarrow>
            let calls = [Ip4_address_sync ifindex (addresses config) default_route_metric,
                         Ip4_route_sync ifindex synced]
            in if \<not> route_sync ifindex synced then Some (calls, False)
               else if mtu config \<noteq> 0 \<and> mtu config \<noteq> link_get_mtu ifindex
                    then Some (calls @ [Link_set_mtu ifindex (mtu config)], True)
               else Some (calls, True))"

subsection \<open>Merge\<close>

definition nm_ip4_config_merge ::
  "(NMPlatformIP4Address \<Rightarrow> NMPlatformIP4Address \<Rightarrow> int)
   \<Rightarrow> NMIP4Config \<Rightarrow> NMIP4Config \<Rightarrow> NMIP4Config" where
  "nm_ip4_config_merge cmp_expiry dst src =
     (let d1 = fold (\<lambda>a d. nm_ip4_config_add_address cmp_expiry d a) (addresses src) dst;
          d2 = fold (\<lambda>n d. or_unchanged d (nm_ip4_config_add_nameserver d n)) (nameservers src) d1;
          d3 = (if gateway d2 = 0 then nm_ip4_config_set_gateway d2 (gateway src) else d2);
          d4 = fold (\<lambda>r d. or_unchanged d (nm_ip4_config_add_route d r)) (routes src) d3;
          d5 = fold (\<lambda>s d. or_unchanged d (nm_ip4_config_add_domain d s)) (domains src) d4;
          d6 = fold (\<lambda>s d. or_unchanged d (nm_ip4_config_add_search d s)) (searches src) d5;
          d7 = (if mss d6 = 0 then nm_ip4_config_set_mss d6 (mss src) else d6);
          d8 = (if mtu d7 = 0 then nm_ip4_config_set_mtu d7 (mtu src) (mtu_source src) else d7);
          d9 = fold (\<lambda>n d. nm_ip4_config_add_nis_server d n) (nis src) d8;
          d10 = (case nis_domain src of
                   None \<Rightarrow> d9
                 | Some s \<Rightarrow> nm_ip4_config_set_nis_domain d9 (nis_domain src));
          d11 = fold (\<lambda>w d. or_unchanged d (nm_ip4_config_add_wins d w)) (wins src) d10
      in d11)"

subsection \<open>Subtract\<close>

text \<open>
  The inner loops of \<^verbatim>\<open>nm_ip4_config_subtract\<close> look for the first index of
  \<open>dst\<close> whose entry matches the entry of \<open>src\<close>, delete there and stop.
\<close>

fun first_index :: "('a \<Rightarrow> bool) \<Rightarrow> 'a list \<Rightarrow> nat option" where
  "first_index P [] = None"
| "first_index P (x # xs) =
     (if P x then Some 0 else map_option Suc (first_index P xs))"

definition subtract_address :: "NMPlatformIP4Address \<Rightarrow> NMIP4Config \<Rightarrow> NMIP4Config" where
  "subtract_address src_addr dst =
     (case first_index (\<lambda>dst_addr. a_address src_addr = a_address dst_addr
                                   \<and> a_plen src_addr = a_plen dst_addr) (addresses dst) of
        None \<Rightarrow> dst
      | Some j \<Rightarrow> or_unchanged dst (nm_ip4_config_del_address dst j))"

definition subtract_nameserver :: "guint32 \<Rightarrow> NMIP4Config \<Rightarrow> NMIP4Config" where
  "subtract_nameserver src_ns dst =
     (case first_index (\<lambda>dst_ns. dst_ns = src_ns) (nameservers dst) of
        None \<Rightarrow> dst
      | Some j \<Rightarrow> or_unchanged dst (nm_ip4_config_del_nameserver dst j))"

definition subtract_route :: "NMPlatformIP4Route \<Rightarrow> NMIP4Config \<Rightarrow> NMIP4Config" where
  "subtract_route src_route dst =
     (case first_index (\<lambda>dst_route. r_network src_route = r_network dst_route
                                    \<and> r_plen src_route = r_plen dst_route) (routes dst) of
        None \<Rightarrow> dst
      | Some j \<Rightarrow> or_unchanged dst (nm_ip4_config_del_route dst j))"

definition subtract_domain :: "string \<Rightarrow> NMIP4Config \<Rightarrow> NMIP4Config" where
  "subtract_domain src_domain dst =
     (case first_index (\<lambda>dst_domain. src_domain = dst_domain) (domains dst) of
        None \<Rightarrow> dst
      | Some j \<Rightarrow> or_unchanged dst (nm_ip4_config_del_domain dst j))"

definition subtract_search :: "string \<Rightarrow> NMIP4Config \<Rightarrow> NMIP4Config" where
  "subtract_search src_search dst =
     (case first_index (\<lambda>dst_search. src_search = dst_search) (searches dst) of
        None \<Rightarrow> dst
      | Some j \<Rightarrow> or_unchanged dst (nm_ip4_config_del_search dst j))"

definition subtract_nis_server :: "guint32 \<Rightarrow> NMIP4Config \<Rightarrow> NMIP4Config" where
  "subtract_nis_server src_nis dst =
     (case first_index (\<lambda>dst_nis. dst_nis = src_nis) (nis dst) of
        None \<Rightarrow> dst
      | Some j \<Rightarrow> or_unchanged dst (nm_ip4_config_del_nis_server dst j))"

definition subtract_wins :: "guint32 \<Rightarrow> NMIP4Config \<Rightarrow> NMIP4Config" where
  "subtract_wins src_wins dst =
     (case first_index (\<lambda>dst_wins. dst_wins = src_wins) (wins dst) of
        None \<Rightarrow> dst
      | Some j \<Rightarrow> or_unchanged dst (nm_ip4_config_del_wins dst j))"

definition nm_ip4_config_subtract :: "NMIP4Config \<Rightarrow> NMIP4Config \<Rightarrow> NMIP4Config" where
  "nm_ip4_config_subtract dst src =
     (let d1 = fold subtract_address (addresses src) dst;
          d2 = fold subtract_nameserver (nameservers src) d1;
          d3 = (if gateway src = gateway d2 then nm_ip4_config_set_gateway d2 0 else d2);
          d4 = (if length (addresses d3) = 0 then nm_ip4_config_set_gateway d3 0 else d3);
          d5 = fold subtract_route (routes src) d4;
          d6 = fold subtract_domain (domains src) d5;
          d7 = fold subtract_search (searches src) d6;
          d8 = (if mss src = mss d7 then nm_ip4_config_set_mss d7 0 else d7);
          d9 = (if mtu src = mtu d8
                then nm_ip4_config_set_mtu d8 0 NM_IP_CONFIG_SOURCE_UNKNOWN else d8);
          d10 = fold subtract_nis_server (nis src) d9;
          d11 = (if nis_domain src = nis_domain d10
                 then nm_ip4_config_set_nis_domain d10 None else d10);
          d12 = fold subtract_wins (wins src) d11
      in d12)"

subsection \<open>Hash and equality\<close>

text \<open>
  The checksum is fed bytes and nothing else, so \<^verbatim>\<open>nm_ip4_config_hash\<close> is the
  sequence of bytes it feeds, in order. \<^verbatim>\<open>hash_u32\<close> feeds the four bytes of its
  argument as they lie in memory (little-endian host); a string is fed without its
  terminator, a \<^verbatim>\<open>NULL\<close> NIS domain not at all.
\<close>

definition hash_u32 :: "guint32 \<Rightarrow> byte list" where
  "hash_u32 n = [ucast n, ucast (drop_bit 8 n), ucast (drop_bit 16 n), ucast (drop_bit 24 n)]"

definition hash_string :: "string \<Rightarrow> byte list" where
  "hash_string s = map of_char s"

definition nm_ip4_config_hash :: "NMIP4Config \<Rightarrow> bool \<Rightarrow> byte list" where
  "nm_ip4_config_hash config dns_only =
     (if \<not> dns_only then
        hash_u32 (gateway config)
        @ concat (map (\<lambda>address. hash_u32 (a_address address) @ hash_u32 (word_of_int (a_plen address)))
                      (addresses config))
        @ concat (map (\<lambda>route. hash_u32 (r_network route) @ hash_u32 (word_of_int (r_plen route))
                                @ hash_u32 (r_gateway route) @ hash_u32 (r_metric route))
                      (routes config))
        @ concat (map hash_u32 (nis config))
        @ (case nis_domain config of None \<Rightarrow> [] | Some s \<Rightarrow> hash_string s)
      else [])
     @ concat (map hash_u32 (nameservers config))
     @ concat (map hash_u32 (wins config))
     @ concat (map hash_string (domains config))
     @ concat (map hash_string (searches config))"

text \<open>
  \<^verbatim>\<open>nm_ip4_config_equal\<close> compares the SHA-1 digests of the two byte sequences.
  SHA-1 is part of GLib, not of the sources; a digest is represented by the bytes it
  is the digest of, so that two digests are equal exactly when the bytes are
  (no collision of SHA-1 is modelled).
\<close>

definition nm_ip4_config_equal :: "NMIP4Config \<Rightarrow> NMIP4Config \<Rightarrow> bool" where
  "nm_ip4_config_equal a b = (nm_ip4_config_hash a False = nm_ip4_config_hash b False)"

subsection \<open>Replace\<close>

text \<open>
  The comparison loops of \<^verbatim>\<open>nm_ip4_config_replace\<close> run over the indices of two
  arrays of the same length, that is over the pairs of their elements. For addresses
  and routes the loop goes on after a pair that differs in its metadata only, and
  stops at a pair that differs in more. The result is \<^verbatim>\<open>are_equal\<close> and whether
  the loop found a relevant change.
\<close>

fun replace_addresses_loop ::
  "(NMPlatformIP4Address \<times> NMPlatformIP4Address) list \<Rightarrow> bool \<Rightarrow> bool \<times> bool" where
  "replace_addresses_loop [] are_equal = (are_equal, False)"
| "replace_addresses_loop ((src_addr, dst_addr) # rest) are_equal =
     (if nm_platform_ip4_address_cmp src_addr dst_addr \<noteq> 0 then
        (if \<not> addresses_are_duplicate src_addr dst_addr True then (False, True)
         else replace_addresses_loop rest False)
      else replace_addresses_loop rest are_equal)"

fun replace_routes_loop ::
  "(NMPlatformIP4Route \<times> NMPlatformIP4Route) list \<Rightarrow> bool \<Rightarrow> bool \<times> bool" where
  "replace_routes_loop [] are_equal = (are_equal, False)"
| "replace_routes_loop ((src_route, dst_route) # rest) are_equal =
     (if nm_platform_ip4_route_cmp src_route dst_route \<noteq> 0 then
        (if \<not> routes_are_duplicate src_route dst_route True then (False, True)
         else replace_routes_loop rest False)
      else replace_routes_loop rest are_equal)"

text \<open>
  The loop runs only when the two arrays have the same length; when they do not, the
  arrays are not equal and the change is relevant.
\<close>

definition replace_addresses_scan ::
  "NMPlatformIP4Address list \<Rightarrow> NMPlatformIP4Address list \<Rightarrow> bool \<times> bool" where
  "replace_addresses_scan src_array dst_array =
     (if length src_array = length dst_array
      then replace_addresses_loop (zip src_array dst_array) True
      else (False, True))"

definition replace_routes_scan ::
  "NMPlatformIP4Route list \<Rightarrow> NMPlatformIP4Route list \<Rightarrow> bool \<times> bool" where
  "replace_routes_scan src_array dst_array =
     (if length src_array = length dst_array
      then replace_routes_loop (zip src_array dst_array) True
      else (False, True))"

text \<open>For the other arrays the loop stops at the first pair that differs.\<close>

fun elements_are_equal :: "('a \<times> 'a) list \<Rightarrow> bool" where
  "elements_are_equal [] = True"
| "elements_are_equal ((s, d) # rest) = (if s \<noteq> d then False else elements_are_equal rest)"

definition arrays_are_equal :: "'a list \<Rightarrow> 'a list \<Rightarrow> bool" where
  "arrays_are_equal src_array dst_array =
     (if length src_array = length dst_array then elements_are_equal (zip src_array dst_array)
      else False)"

text \<open>
  The steps of \<^verbatim>\<open>nm_ip4_config_replace\<close>, one for each field, in the order of the
  source. A step takes \<open>src\<close> and the triple of \<open>dst\<close>,
  \<^verbatim>\<open>has_minor_changes\<close> and \<^verbatim>\<open>has_relevant_changes\<close>.
\<close>

fun replace_never_default :: "NMIP4Config \<Rightarrow> NMIP4Config \<times> bool \<times> bool \<Rightarrow> NMIP4Config \<times> bool \<times> bool" where
  "replace_never_default src (dst, minor, relevant) =
     (if never_default src \<noteq> never_default dst
      then (dst\<lparr>never_default := never_default src\<rparr>, True, relevant)
      else (dst, minor, relevant))"

fun replace_gateway :: "NMIP4Config \<Rightarrow> NMIP4Config \<times> bool \<times> bool \<Rightarrow> NMIP4Config \<times> bool \<times> bool" where
  "replace_gateway src (dst, minor, relevant) =
     (if gateway src \<noteq> gateway dst
      then (nm_ip4_config_set_gateway dst (gateway src), minor, True)
      else (dst, minor, relevant))"

fun replace_addresses ::
  "(NMPlatformIP4Address \<Rightarrow> NMPlatformIP4Address \<Rightarrow> int)
   \<Rightarrow> NMIP4Config \<Rightarrow> NMIP4Config \<times> bool \<times> bool \<Rightarrow> NMIP4Config \<times> bool \<times> bool" where
  "replace_addresses cmp_expiry src (dst, minor, relevant) =
     (case replace_addresses_scan (addresses src) (addresses dst) of
        (are_equal, found) \<Rightarrow>
          if \<not> are_equal
          then (fold (\<lambda>a d. nm_ip4_config_add_address cmp_expiry d a) (addresses src)
                  (nm_ip4_config_reset_addresses dst), True, (relevant \<or> found))
          else (dst, minor, (relevant \<or> found)))"

fun replace_routes :: "NMIP4Config \<Rightarrow> NMIP4Config \<times> bool \<times> bool \<Rightarrow> NMIP4Config \<times> bool \<times> bool" where
  "replace_routes src (dst, minor, relevant) =
     (case replace_routes_scan (routes src) (routes dst) of
        (are_equal, found) \<Rightarrow>
          if \<not> are_equal
          then (fold (\<lambda>r d. or_unchanged d (nm_ip4_config_add_route d r)) (routes src)
                  (nm_ip4_config_reset_routes dst), True, (relevant \<or> found))
          else (dst, minor, (relevant \<or> found)))"

fun replace_nameservers :: "NMIP4Config \<Rightarrow> NMIP4Config \<times> bool \<times> bool \<Rightarrow> NMIP4Config \<times> bool \<times> bool" where
  "replace_nameservers src (dst, minor, relevant) =
     (if \<not> arrays_are_equal (nameservers src) (nameservers dst)
      then (fold (\<lambda>n d. or_unchanged d (nm_ip4_config_add_nameserver d n)) (nameservers src)
              (nm_ip4_config_reset_nameservers dst), minor, True)
      else (dst, minor, relevant))"

fun replace_domains :: "NMIP4Config \<Rightarrow> NMIP4Config \<times> bool \<times> bool \<Rightarrow> NMIP4Config \<times> bool \<times> bool" where
  "replace_domains src (dst, minor, relevant) =
     (if \<not> arrays_are_equal (domains src) (domains dst)
      then (fold (\<lambda>s d. or_unchanged d (nm_ip4_config_add_domain d s)) (domains src)
              (nm_ip4_config_reset_domains dst), minor, True)
      else (dst, minor, relevant))"

fun replace_searches :: "NMIP4Config \<Rightarrow> NMIP4Config \<times> bool \<times> bool \<Rightarrow> NMIP4Config \<times> bool \<times> bool" where
  "replace_searches src (dst, minor, relevant) =
     (if \<not> arrays_are_equal (searches src) (searches dst)
      then (fold (\<lambda>s d. or_unchanged d (nm_ip4_config_add_search d s)) (searches src)
              (nm_ip4_config_reset_searches dst), minor, True)
      else (dst, minor, relevant))"

fun replace_mss :: "NMIP4Config \<Rightarrow> NMIP4Config \<times> bool \<times> bool \<Rightarrow> NMIP4Config \<times> bool \<times> bool" where
  "replace_mss src (dst, minor, relevant) =
     (if mss src \<noteq> mss dst
      then (nm_ip4_config_set_mss dst (mss src), True, relevant)
      else (dst, minor, relevant))"

fun replace_nis :: "NMIP4Config \<Rightarrow> NMIP4Config \<times> bool \<times> bool \<Rightarrow> NMIP4Config \<times> bool \<times> bool" where
  "replace_nis src (dst, minor, relevant) =
     (if \<not> arrays_are_equal (nis src) (nis dst)
      then (fold (\<lambda>n d. nm_ip4_config_add_nis_server d n) (nis src)
              (nm_ip4_config_reset_nis_servers dst), minor, True)
      else (dst, minor, relevant))"

fun replace_nis_domain :: "NMIP4Config \<Rightarrow> NMIP4Config \<times> bool \<times> bool \<Rightarrow> NMIP4Config \<times> bool \<times> bool" where
  "replace_nis_domain src (dst, minor, relevant) =
     (if nis_domain src \<noteq> nis_domain dst
      then (nm_ip4_config_set_nis_domain dst (nis_domain src), minor, True)
      else (dst, minor, relevant))"

fun replace_wins :: "NMIP4Config \<Rightarrow> NMIP4Config \<times> bool \<times> bool \<Rightarrow> NMIP4Config \<times> bool \<times> bool" where
  "replace_wins src (dst, minor, relevant) =
     (if \<not> arrays_are_equal (wins src) (wins dst)
      then (fold (\<lambda>w d. or_unchanged d (nm_ip4_config_add_wins d w)) (wins src)
              (nm_ip4_config_reset_wins dst), minor, True)
      else (dst, minor, relevant))"

fun replace_mtu :: "NMIP4Config \<Rightarrow> NMIP4Config \<times> bool \<times> bool \<Rightarrow> NMIP4Config \<times> bool \<times> bool" where
  "replace_mtu src (dst, minor, relevant) =
     (if mtu src \<noteq> mtu dst
      then (nm_ip4_config_set_mtu dst (mtu src) (mtu_source src), True, relevant)
      else (dst, minor, relevant))"

text \<open>
  The body of \<^verbatim>\<open>nm_ip4_config_replace\<close> between the two uses of
  \<^verbatim>\<open>config_equal\<close>: the new \<open>dst\<close>, \<^verbatim>\<open>has_minor_changes\<close> and
  \<^verbatim>\<open>has_relevant_changes\<close>.
\<close>

definition replace_fields ::
  "(NMPlatformIP4Address \<Rightarrow> NMPlatformIP4Address \<Rightarrow> int)
   \<Rightarrow> NMIP4Config \<Rightarrow> NMIP4Config \<Rightarrow> NMIP4Config \<times> bool \<times> bool" where
  "replace_fields cmp_expiry dst src =
     replace_mtu src (replace_wins src (replace_nis_domain src (replace_nis src
       (replace_mss src (replace_searches src (replace_domains src (replace_nameservers src
         (replace_routes src (replace_addresses cmp_expiry src (replace_gateway src
           (replace_never_default src (dst, False, False))))))))))))"

text \<open>
  \<^verbatim>\<open>nm_ip4_config_replace\<close>, compiled with assertions (\<^verbatim>\<open>G_DISABLE_ASSERT\<close> not
  defined), for two distinct objects. The result is the new \<open>dst\<close>, the value
  returned (whether anything changed) and \<^verbatim>\<open>*relevant_changes\<close>; or the assertion
  that \<^verbatim>\<open>config_equal\<close> corresponds to \<^verbatim>\<open>has_relevant_changes\<close> fails.
\<close>

definition nm_ip4_config_replace ::
  "(NMPlatformIP4Address \<Rightarrow> NMPlatformIP4Address \<Rightarrow> int)
   \<Rightarrow> NMIP4Config \<Rightarrow> NMIP4Config \<Rightarrow> g_failure + NMIP4Config \<times> bool \<times> bool" where
  "nm_ip4_config_replace cmp_expiry dst src =
     (let config_equal = nm_ip4_config_equal dst src
      in case replace_fields cmp_expiry dst src of
           (dst', has_minor_changes, has_relevant_changes) \<Rightarrow>
             if config_equal = (\<not> has_relevant_changes)
             then Inr (dst', (has_relevant_changes \<or> has_minor_changes), has_relevant_changes)
             else Inl G_assert)"

subsection \<open>Notation for the examples and the proofs\<close>

text \<open>
  The address \<^verbatim>\<open>a.b.c.d\<close> as an \<^verbatim>\<open>in_addr_t\<close> on a little-endian host: network
  byte order puts \<^verbatim>\<open>a\<close> in the byte at the lowest address.
\<close>

definition ipv4 :: "nat \<Rightarrow> nat \<Rightarrow> nat \<Rightarrow> nat \<Rightarrow> guint32" where
  "ipv4 a b c d = of_nat (a + 256 * b + 65536 * c + 16777216 * d)"

text \<open>An address and a route of link 2 with the given fields, the label empty.\<close>

definition address_of ::
  "guint32 \<Rightarrow> int \<Rightarrow> NMIPConfigSource \<Rightarrow> guint32 \<Rightarrow> guint32 \<Rightarrow> NMPlatformIP4Address" where
  "address_of addr plen source timestamp lifetime =
     \<lparr>a_ifindex = 2, a_source = source, a_address = addr, a_plen = plen,
      a_timestamp = timestamp, a_lifetime = lifetime, a_preferred = lifetime, a_label = []\<rparr>"

definition route_of ::
  "guint32 \<Rightarrow> int \<Rightarrow> guint32 \<Rightarrow> guint32 \<Rightarrow> NMIPConfigSource \<Rightarrow> NMPlatformIP4Route" where
  "route_of network plen gw metric source =
     \<lparr>r_ifindex = 2, r_source = source, r_network = network, r_plen = plen,
      r_gateway = gw, r_metric = metric\<rparr>"

text \<open>Appending a value that the list does not hold yet.\<close>

definition add_unique :: "'a \<Rightarrow> 'a list \<Rightarrow> 'a list" where
  "add_unique x xs = (if x \<in> set xs then xs else xs @ [x])"

text \<open>Removing the first element with a property, if there is one.\<close>

fun remove_first :: "('a \<Rightarrow> bool) \<Rightarrow> 'a list \<Rightarrow> 'a list" where
  "remove_first P [] = []"
| "remove_first P (x # xs) = (if P x then xs else x # remove_first P xs)"

subsection \<open>The mutation operations\<close>

text \<open>
  The operations that change an \<^verbatim>\<open>NMIP4Config\<close>, as values, and what one of them
  does to an object. A call whose \<^verbatim>\<open>g_return_if_fail\<close> check fails leaves the
  object as it was. For replace the object is the one its body leaves behind, whether
  or not the assertion at its end holds.
\<close>

datatype mutation =
    Add_address NMPlatformIP4Address
  | Del_address nat
  | Reset_addresses
  | Add_route NMPlatformIP4Route
  | Del_route nat
  | Reset_routes
  | Set_gateway guint32
  | Set_never_default bool
  | Set_mss guint32
  | Set_mtu guint32 NMIPConfigSource
  | Set_nis_domain "string option"
  | Add_nameserver guint32
  | Del_nameserver nat
  | Reset_nameservers
  | Add_domain string
  | Del_domain nat
  | Reset_domains
  | Add_search string
  | Del_search nat
  | Reset_searches
  | Add_nis_server guint32
  | Del_nis_server nat
  | Reset_nis_servers
  | Add_wins guint32
  | Del_wins nat
  | Reset_wins
  | Merge NMIP4Config
  | Subtract NMIP4Config
  | Replace NMIP4Config

fun mutate ::
  "(NMPlatformIP4Address \<Rightarrow> NMPlatformIP4Address \<Rightarrow> int) \<Rightarrow> mutation \<Rightarrow> NMIP4Config \<Rightarrow> NMIP4Config" where
  "mutate cmp_expiry (Add_address a) config = nm_ip4_config_add_address cmp_expiry config a"
| "mutate cmp_expiry (Del_address i) config = or_unchanged config (nm_ip4_config_del_address config i)"
| "mutate cmp_expiry Reset_addresses config = nm_ip4_config_reset_addresses config"
| "mutate cmp_expiry (Add_route r) config = or_unchanged config (nm_ip4_config_add_route config r)"
| "mutate cmp_expiry (Del_route i) config = or_unchanged config (nm_ip4_config_del_route config i)"
| "mutate cmp_expiry Reset_routes config = nm_ip4_config_reset_routes config"
| "mutate cmp_expiry (Set_gateway gw) config = nm_ip4_config_set_gateway config gw"
| "mutate cmp_expiry (Set_never_default nd) config = nm_ip4_config_set_never_default config nd"
| "mutate cmp_expiry (Set_mss m) config = nm_ip4_config_set_mss config m"
| "mutate cmp_expiry (Set_mtu m source) config = nm_ip4_config_set_mtu config m source"
| "mutate cmp_expiry (Set_nis_domain d) config = nm_ip4_config_set_nis_domain config d"
| "mutate cmp_expiry (Add_nameserver n) config = or_unchanged config (nm_ip4_config_add_nameserver config n)"
| "mutate cmp_expiry (Del_nameserver i) config = or_unchanged config (nm_ip4_config_del_nameserver config i)"
| "mutate cmp_expiry Reset_nameservers config = nm_ip4_config_reset_nameservers config"
| "mutate cmp_expiry (Add_domain s) config = or_unchanged config (nm_ip4_config_add_domain config s)"
| "mutate cmp_expiry (Del_domain i) config = or_unchanged config (nm_ip4_config_del_domain config i)"
| "mutate cmp_expiry Reset_domains config = nm_ip4_config_reset_domains config"
| "mutate cmp_expiry (Add_search s) config = or_unchanged config (nm_ip4_config_add_search config s)"
| "mutate cmp_expiry (Del_search i) config = or_unchanged config (nm_ip4_config_del_search config i)"
| "mutate cmp_expiry Reset_searches config = nm_ip4_config_reset_searches config"
| "mutate cmp_expiry (Add_nis_server n) config = nm_ip4_config_add_nis_server config n"
| "mutate cmp_expiry (Del_nis_server i) config = or_unchanged config (nm_ip4_config_del_nis_server config i)"
| "mutate cmp_expiry Reset_nis_servers config = nm_ip4_config_reset_nis_servers config"
| "mutate cmp_expiry (Add_wins w) config = or_unchanged config (nm_ip4_config_add_wins config w)"
| "mutate cmp_expiry (Del_wins i) config = or_unchanged config (nm_ip4_config_del_wins config i)"
| "mutate cmp_expiry Reset_wins config = nm_ip4_config_reset_wins config"
| "mutate cmp_expiry (Merge src) config = nm_ip4_config_merge cmp_expiry config src"
| "mutate cmp_expiry (Subtract src) config = nm_ip4_config_subtract config src"
| "mutate cmp_expiry (Replace src) config = fst (replace_fields cmp_expiry config src)"

text \<open>
  No two stored addresses with the same address and prefix length, no two stored
  routes with the same network and prefix length.
\<close>

definition identities_unique :: "NMIP4Config \<Rightarrow> bool" where
  "identities_unique config =
     (distinct (map (\<lambda>a. (a_address a, a_plen a)) (addresses config))
      \<and> distinct (map (\<lambda>r. (r_network r, r_plen r)) (routes config)))"

text \<open>
  What the proof of it carries along: no two stored addresses with the same address,
  which is what \<^verbatim>\<open>nm_ip4_config_add_address\<close> looks for.
\<close>

definition unique_inv :: "NMIP4Config \<Rightarrow> bool" where
  "unique_inv config = (distinct (map a_address (addresses config))
      \<and> distinct (map (\<lambda>r. (r_network r, r_plen r)) (routes config)))"

section \<open>Properties\<close>

subsection \<open>The MTU and its source\<close>

text \<open>
  C10. \<^verbatim>\<open>nm_ip4_config_set_mtu\<close> follows the priority of the sources. A strictly
  higher source overwrites the stored MTU and its source. An equal source keeps the
  source and replaces the stored MTU only if that is zero or strictly greater than the
  new value, so that the smaller value wins. A strictly lower source changes neither
  the MTU nor its source. The source changes in the first case only.
\<close>

theorem set_mtu_source_priority:
  "(mtu_source config < source \<longrightarrow>
      nm_ip4_config_set_mtu config m source = config\<lparr>mtu := m, mtu_source := source\<rparr>)
   \<and> (source = mtu_source config \<longrightarrow>
      mtu_source (nm_ip4_config_set_mtu config m source) = mtu_source config
      \<and> mtu (nm_ip4_config_set_mtu config m source)
          = (if mtu config = 0 \<or> m < mtu config then m else mtu config))
   \<and> (source < mtu_source config \<longrightarrow> nm_ip4_config_set_mtu config m source = config)
   \<and> (mtu_source (nm_ip4_config_set_mtu config m source) \<noteq> mtu_source config
        \<longrightarrow> mtu_source config < source)"
  by (simp add: nm_ip4_config_set_mtu_def)

theorem set_mtu_source_priority_witness:
  "nm_ip4_config_set_mtu (nm_ip4_config_new\<lparr>mtu := 1500, mtu_source := 1\<rparr>) 1400 2
     = nm_ip4_config_new\<lparr>mtu := 1400, mtu_source := 2\<rparr>
   \<and> mtu (nm_ip4_config_set_mtu (nm_ip4_config_new\<lparr>mtu := 1500, mtu_source := 1\<rparr>) 1400 1) = 1400
   \<and> mtu (nm_ip4_config_set_mtu (nm_ip4_config_new\<lparr>mtu := 1400, mtu_source := 1\<rparr>) 1500 1) = 1400
   \<and> nm_ip4_config_set_mtu (nm_ip4_config_new\<lparr>mtu := 1500, mtu_source := 2\<rparr>) 1400 1
     = nm_ip4_config_new\<lparr>mtu := 1500, mtu_source := 2\<rparr>"
  using set_mtu_source_priority [where config = "nm_ip4_config_new\<lparr>mtu := 1500, mtu_source := 1\<rparr>"
      and source = 2 and m = 1400]
    set_mtu_source_priority [where config = "nm_ip4_config_new\<lparr>mtu := 1500, mtu_source := 1\<rparr>"
      and source = 1 and m = 1400]
    set_mtu_source_priority [where config = "nm_ip4_config_new\<lparr>mtu := 1400, mtu_source := 1\<rparr>"
      and source = 1 and m = 1500]
    set_mtu_source_priority [where config = "nm_ip4_config_new\<lparr>mtu := 1500, mtu_source := 2\<rparr>"
      and source = 1 and m = 1400]
  by (simp add: nm_ip4_config_new_def)

subsection \<open>Routes: \<^verbatim>\<open>nm_ip4_config_add_route\<close>\<close>

lemma add_route_items_first:
  "i < length rs \<Longrightarrow> routes_are_duplicate (rs ! i) new False
   \<Longrightarrow> (\<And>j. j < i \<Longrightarrow> \<not> routes_are_duplicate (rs ! j) new False)
   \<Longrightarrow> add_route_items rs new = rs[i := add_route_item (rs ! i) new]"
proof (induction rs arbitrary: i)
  case Nil
  then show ?case by simp
next
  case (Cons r rs)
  show ?case
  proof (cases i)
    case 0
    with Cons.prems show ?thesis by simp
  next
    case (Suc k)
    have nd: "\<not> routes_are_duplicate r new False"
      using Cons.prems(3) [of 0] Suc by simp
    have "add_route_items rs new = rs[k := add_route_item (rs ! k) new]"
    proof (rule Cons.IH)
      show "k < length rs" using Cons.prems(1) Suc by simp
      show "routes_are_duplicate (rs ! k) new False" using Cons.prems(2) Suc by simp
      show "\<not> routes_are_duplicate (rs ! j) new False" if "j < k" for j
        using Cons.prems(3) [of "Suc j"] that Suc by simp
    qed
    with nd Suc show ?thesis by simp
  qed
qed

text \<open>
  C7. \<^verbatim>\<open>nm_ip4_config_add_route\<close> with a route of prefix length 0 fails its
  \<^verbatim>\<open>g_return_if_fail\<close> check and leaves the object as it was. For a route of
  positive prefix length whose network and prefix length are those of a stored route
  (the route at index \<open>i\<close>, no route before it colliding), the stored record
  becomes the new one, with the higher of the old and the new source.
\<close>

theorem add_route_collision:
  "(r_plen new = 0 \<longrightarrow>
      nm_ip4_config_add_route config new = Inl G_return_if_fail
      \<and> or_unchanged config (nm_ip4_config_add_route config new) = config)
   \<and> (0 < r_plen new \<longrightarrow> i < length (routes config)
        \<longrightarrow> r_network (routes config ! i) = r_network new \<and> r_plen (routes config ! i) = r_plen new
        \<longrightarrow> (\<forall>j < i. \<not> (r_network (routes config ! j) = r_network new
                          \<and> r_plen (routes config ! j) = r_plen new))
        \<longrightarrow> nm_ip4_config_add_route config new
             = Inr (config\<lparr>routes := (routes config)
                      [i := new\<lparr>r_source := max (r_source (routes config ! i)) (r_source new)\<rparr>]\<rparr>))"
proof (intro conjI impI)
  assume "r_plen new = 0"
  then show "nm_ip4_config_add_route config new = Inl G_return_if_fail"
    by (simp add: nm_ip4_config_add_route_def)
  then show "or_unchanged config (nm_ip4_config_add_route config new) = config"
    by simp
next
  assume pos: "0 < r_plen new" and i: "i < length (routes config)"
    and same: "r_network (routes config ! i) = r_network new \<and> r_plen (routes config ! i) = r_plen new"
    and first: "\<forall>j < i. \<not> (r_network (routes config ! j) = r_network new
                          \<and> r_plen (routes config ! j) = r_plen new)"
  have "add_route_items (routes config) new
        = (routes config)[i := add_route_item (routes config ! i) new]"
    using i same first by (intro add_route_items_first) (auto simp: routes_are_duplicate_def)
  moreover have "add_route_item (routes config ! i) new
        = new\<lparr>r_source := max (r_source (routes config ! i)) (r_source new)\<rparr>"
    by (auto simp: add_route_item_def nm_platform_ip4_route_cmp_def)
  ultimately show "nm_ip4_config_add_route config new
             = Inr (config\<lparr>routes := (routes config)
                      [i := new\<lparr>r_source := max (r_source (routes config ! i)) (r_source new)\<rparr>]\<rparr>)"
    using pos by (simp add: nm_ip4_config_add_route_def)
qed

text \<open>
  A default route is rejected; the route to 10.1.0.0/16 stored from source 4 with
  metric 100 is replaced by the one from source 1 with metric 50 and keeps source 4.
\<close>

theorem add_route_collision_witness:
  "nm_ip4_config_add_route
     (nm_ip4_config_new\<lparr>routes := [route_of (ipv4 10 1 0 0) 16 (ipv4 10 0 0 1) 100 4]\<rparr>)
     (route_of 0 0 (ipv4 10 0 0 1) 50 1) = Inl G_return_if_fail
   \<and> nm_ip4_config_add_route
     (nm_ip4_config_new\<lparr>routes := [route_of (ipv4 10 1 0 0) 16 (ipv4 10 0 0 1) 100 4]\<rparr>)
     (route_of (ipv4 10 1 0 0) 16 (ipv4 10 0 0 254) 50 1)
     = Inr (nm_ip4_config_new\<lparr>routes := [route_of (ipv4 10 1 0 0) 16 (ipv4 10 0 0 254) 50 4]\<rparr>)"
  using add_route_collision [where config = "nm_ip4_config_new\<lparr>routes := [route_of (ipv4 10 1 0 0) 16 (ipv4 10 0 0 1) 100 4]\<rparr>"
      and new = "route_of 0 0 (ipv4 10 0 0 1) 50 1" and i = 0]
    add_route_collision [where config = "nm_ip4_config_new\<lparr>routes := [route_of (ipv4 10 1 0 0) 16 (ipv4 10 0 0 1) 100 4]\<rparr>"
      and new = "route_of (ipv4 10 1 0 0) 16 (ipv4 10 0 0 254) 50 1" and i = 0]
  by (simp add: route_of_def nm_ip4_config_new_def)

subsection \<open>Commit\<close>


lemma destination_is_direct_loop_True:
  assumes "destination_is_direct_loop items network plen = Some True"
  shows "\<exists>item \<in> set items. a_plen item \<le> plen
           \<and> same_prefix (a_address item) network (a_plen item) = Some True"
  using assms
  by (induction items) (auto split: if_splits option.splits bool.splits)


text \<open>
  Where every stored address has a prefix length from 1 to 32, no call of
  \<^verbatim>\<open>same_prefix\<close> is undefined, and \<^verbatim>\<open>nm_ip4_config_commit\<close> returns.
\<close>

lemma destination_is_direct_loop_defined:
  assumes "\<And>item. item \<in> set items \<Longrightarrow> 1 \<le> a_plen item \<and> a_plen item \<le> 32"
  shows "\<exists>b. destination_is_direct_loop items network plen = Some b"
  using assms
  by (induction items) (auto simp: same_prefix_def Let_def split: bool.splits)

lemma commit_routes_defined:
  assumes "\<And>item. item \<in> set (addresses config) \<Longrightarrow> 1 \<le> a_plen item \<and> a_plen item \<le> 32"
  shows "\<exists>out. commit_routes config rs = Some out"
proof (induction rs)
  case Nil
  show ?case by simp
next
  case (Cons route rest)
  have "\<exists>b. destination_is_direct_loop (addresses config) (r_network route) (r_plen route) = Some b"
    by (rule destination_is_direct_loop_defined) (rule assms)
  then obtain b where
    "nm_ip4_config_destination_is_direct config (r_network route) (r_plen route) = Some b"
    by (auto simp: nm_ip4_config_destination_is_direct_def)
  with Cons show ?case by (auto split: bool.splits)
qed

lemma commit_defined:
  assumes "\<And>item. item \<in> set (addresses config) \<Longrightarrow> 1 \<le> a_plen item \<and> a_plen item \<le> 32"
  shows "\<exists>calls ok. nm_ip4_config_commit route_sync link_get_mtu config ifindex metric
                     = Some (calls, ok)"
proof -
  have "\<exists>out. commit_routes config (routes config) = Some out"
    by (rule commit_routes_defined) (rule assms)
  then obtain out where "commit_routes config (routes config) = Some out" by blast
  then show ?thesis
    by (cases "0 < ifindex"; cases "route_sync ifindex out";
        cases "mtu config \<noteq> 0 \<and> mtu config \<noteq> link_get_mtu ifindex")
       (auto simp: nm_ip4_config_commit_def Let_def)
qed





subsection \<open>Folding a mutation primitive over an array\<close>

text \<open>
  Each loop of merge and replace calls one primitive for every element of an array of
  \<open>src\<close>. A primitive updates one field of the object, so the loop updates that
  field by the fold of the update.
\<close>

lemma fold_update:
  assumes "\<And>f g d. upd f (upd g d) = upd (f \<circ> g) d" and "\<And>d. upd (\<lambda>x. x) d = d"
  shows "fold (\<lambda>x. upd (g x)) xs d = upd (fold g xs) d"
proof (induction xs arbitrary: d)
  case Nil
  show ?case by (simp add: id_def assms(2))
next
  case (Cons x xs)
  show ?case by (simp add: Cons.IH assms(1) comp_def)
qed

lemma add_address_update:
  "(\<lambda>a d. nm_ip4_config_add_address ce d a) = (\<lambda>a. addresses_update (\<lambda>xs. add_address_items ce xs a))"
  by (intro ext) (simp add: nm_ip4_config_add_address_def)

lemma add_route_update:
  "(\<lambda>r d. or_unchanged d (nm_ip4_config_add_route d r))
   = (\<lambda>r. routes_update (\<lambda>xs. if 0 < r_plen r then add_route_items xs r else xs))"
  by (intro ext) (simp add: nm_ip4_config_add_route_def)

lemma add_nameserver_update:
  "(\<lambda>n d. or_unchanged d (nm_ip4_config_add_nameserver d n))
   = (\<lambda>n. nameservers_update (\<lambda>xs. if n = 0 then xs else add_unique n xs))"
  by (intro ext) (simp add: nm_ip4_config_add_nameserver_def add_unique_def)

lemma add_domain_update:
  "(\<lambda>s d. or_unchanged d (nm_ip4_config_add_domain d s))
   = (\<lambda>s. domains_update (\<lambda>xs. if s = [] then xs else add_unique s xs))"
  by (intro ext) (simp add: nm_ip4_config_add_domain_def add_unique_def)

lemma add_search_update:
  "(\<lambda>s d. or_unchanged d (nm_ip4_config_add_search d s))
   = (\<lambda>s. searches_update (\<lambda>xs. if s = [] then xs else add_unique s xs))"
  by (intro ext) (simp add: nm_ip4_config_add_search_def add_unique_def)

lemma add_nis_update:
  "(\<lambda>n d. nm_ip4_config_add_nis_server d n) = (\<lambda>n. nis_update (add_unique n))"
  by (intro ext) (simp add: nm_ip4_config_add_nis_server_def add_unique_def)

lemma add_wins_update:
  "(\<lambda>n d. or_unchanged d (nm_ip4_config_add_wins d n))
   = (\<lambda>n. wins_update (\<lambda>xs. if n = 0 then xs else add_unique n xs))"
  by (intro ext) (simp add: nm_ip4_config_add_wins_def add_unique_def)

lemmas add_updates = add_address_update add_route_update add_nameserver_update
  add_domain_update add_search_update add_nis_update add_wins_update

lemma fold_addresses_update:
  "fold (\<lambda>x. addresses_update (g x)) xs d = addresses_update (fold g xs) d"
  using fold_update [of addresses_update g xs d] by (simp add: comp_def)

lemma fold_routes_update:
  "fold (\<lambda>x. routes_update (g x)) xs d = routes_update (fold g xs) d"
  using fold_update [of routes_update g xs d] by (simp add: comp_def)

lemma fold_nameservers_update:
  "fold (\<lambda>x. nameservers_update (g x)) xs d = nameservers_update (fold g xs) d"
  using fold_update [of nameservers_update g xs d] by (simp add: comp_def)

lemma fold_domains_update:
  "fold (\<lambda>x. domains_update (g x)) xs d = domains_update (fold g xs) d"
  using fold_update [of domains_update g xs d] by (simp add: comp_def)

lemma fold_searches_update:
  "fold (\<lambda>x. searches_update (g x)) xs d = searches_update (fold g xs) d"
  using fold_update [of searches_update g xs d] by (simp add: comp_def)

lemma fold_nis_update:
  "fold (\<lambda>x. nis_update (g x)) xs d = nis_update (fold g xs) d"
  using fold_update [of nis_update g xs d] by (simp add: comp_def)

lemma fold_wins_update:
  "fold (\<lambda>x. wins_update (g x)) xs d = wins_update (fold g xs) d"
  using fold_update [of wins_update g xs d] by (simp add: comp_def)

lemmas fold_updates = fold_addresses_update fold_routes_update fold_nameservers_update
  fold_domains_update fold_searches_update fold_nis_update fold_wins_update

lemmas setters = nm_ip4_config_set_gateway_def nm_ip4_config_set_mss_def
  nm_ip4_config_set_mtu_def nm_ip4_config_set_nis_domain_def

subsection \<open>Merge: the scalar fields\<close>

lemma merge_gateway:
  "gateway (nm_ip4_config_merge ce dst src) = (if gateway dst = 0 then gateway src else gateway dst)"
  by (simp add: nm_ip4_config_merge_def Let_def add_updates fold_updates setters split: option.splits)

lemma merge_mss:
  "mss (nm_ip4_config_merge ce dst src) = (if mss dst = 0 then mss src else mss dst)"
  by (simp add: nm_ip4_config_merge_def Let_def add_updates fold_updates setters split: option.splits)

lemma merge_mtu:
  "mtu (nm_ip4_config_merge ce dst src)
     = (if mtu dst = 0 then mtu (nm_ip4_config_set_mtu dst (mtu src) (mtu_source src)) else mtu dst)"
  by (simp add: nm_ip4_config_merge_def Let_def add_updates fold_updates setters split: option.splits)

lemma merge_mtu_source:
  "mtu_source (nm_ip4_config_merge ce dst src)
     = (if mtu dst = 0 then mtu_source (nm_ip4_config_set_mtu dst (mtu src) (mtu_source src))
        else mtu_source dst)"
  by (simp add: nm_ip4_config_merge_def Let_def add_updates fold_updates setters split: option.splits)

lemma merge_nis_domain:
  "nis_domain (nm_ip4_config_merge ce dst src)
     = (case nis_domain src of None \<Rightarrow> nis_domain dst | Some s \<Rightarrow> Some s)"
  by (simp add: nm_ip4_config_merge_def Let_def add_updates fold_updates setters split: option.splits)

text \<open>
  C2, as the claim states it, fails: \<open>dst\<close> has the NIS domain
  \<^verbatim>\<open>old.example\<close>, \<open>src\<close> has \<^verbatim>\<open>new.example\<close>, and after the merge
  \<open>dst\<close> has the NIS domain of \<open>src\<close>.
\<close>

theorem merge_nis_domain_counterexample:
  "nis_domain (nm_ip4_config_merge nm_platform_ip_address_cmp_expiry
       (nm_ip4_config_new\<lparr>nis_domain := Some ''old.example''\<rparr>)
       (nm_ip4_config_new\<lparr>nis_domain := Some ''new.example''\<rparr>))
   = Some ''new.example''"
  by (simp add: nm_ip4_config_merge_def nm_ip4_config_new_def setters)

text \<open>
  C2, amended. \<^verbatim>\<open>nm_ip4_config_merge\<close> copies the gateway and the MSS of
  \<open>src\<close> exactly when the value of \<open>dst\<close> is zero. It keeps a non-zero MTU of
  \<open>dst\<close> with its source, and hands the MTU of \<open>src\<close> with its source to
  \<^verbatim>\<open>nm_ip4_config_set_mtu\<close> when the MTU of \<open>dst\<close> is zero. The NIS domain is
  taken from \<open>src\<close> whenever \<open>src\<close> has one, whatever \<open>dst\<close> holds, and
  is left as it is when \<open>src\<close> has none.
\<close>

theorem merge_scalar_fields:
  "gateway (nm_ip4_config_merge cmp_expiry dst src)
     = (if gateway dst = 0 then gateway src else gateway dst)
   \<and> mss (nm_ip4_config_merge cmp_expiry dst src) = (if mss dst = 0 then mss src else mss dst)
   \<and> (mtu dst \<noteq> 0 \<longrightarrow> mtu (nm_ip4_config_merge cmp_expiry dst src) = mtu dst
         \<and> mtu_source (nm_ip4_config_merge cmp_expiry dst src) = mtu_source dst)
   \<and> (mtu dst = 0 \<longrightarrow>
         mtu (nm_ip4_config_merge cmp_expiry dst src)
           = mtu (nm_ip4_config_set_mtu dst (mtu src) (mtu_source src))
         \<and> mtu_source (nm_ip4_config_merge cmp_expiry dst src)
           = mtu_source (nm_ip4_config_set_mtu dst (mtu src) (mtu_source src)))
   \<and> (nis_domain src = None \<longrightarrow>
         nis_domain (nm_ip4_config_merge cmp_expiry dst src) = nis_domain dst)
   \<and> (nis_domain src \<noteq> None \<longrightarrow>
         nis_domain (nm_ip4_config_merge cmp_expiry dst src) = nis_domain src)"
  by (auto simp: merge_gateway merge_mss merge_mtu merge_mtu_source merge_nis_domain)

text \<open>
  A \<open>dst\<close> with gateway 10.0.0.1 and no MSS, MTU or NIS domain, merged with a
  \<open>src\<close> that has all four: the gateway stays, the other three are those of
  \<open>src\<close>. Merged with the empty configuration, \<open>dst\<close> keeps its NIS domain.
\<close>

theorem merge_scalar_fields_witness:
  "gateway (nm_ip4_config_merge nm_platform_ip_address_cmp_expiry
      (nm_ip4_config_new\<lparr>gateway := ipv4 10 0 0 1\<rparr>)
      (nm_ip4_config_new\<lparr>gateway := ipv4 10 0 0 254, mss := 1400, nis_domain := Some ''nis.example'',
         mtu := 1500, mtu_source := 3\<rparr>)) = ipv4 10 0 0 1
   \<and> mss (nm_ip4_config_merge nm_platform_ip_address_cmp_expiry
      (nm_ip4_config_new\<lparr>gateway := ipv4 10 0 0 1\<rparr>)
      (nm_ip4_config_new\<lparr>gateway := ipv4 10 0 0 254, mss := 1400, nis_domain := Some ''nis.example'',
         mtu := 1500, mtu_source := 3\<rparr>)) = 1400
   \<and> mtu (nm_ip4_config_merge nm_platform_ip_address_cmp_expiry
      (nm_ip4_config_new\<lparr>gateway := ipv4 10 0 0 1\<rparr>)
      (nm_ip4_config_new\<lparr>gateway := ipv4 10 0 0 254, mss := 1400, nis_domain := Some ''nis.example'',
         mtu := 1500, mtu_source := 3\<rparr>)) = 1500
   \<and> nis_domain (nm_ip4_config_merge nm_platform_ip_address_cmp_expiry
      (nm_ip4_config_new\<lparr>gateway := ipv4 10 0 0 1\<rparr>)
      (nm_ip4_config_new\<lparr>gateway := ipv4 10 0 0 254, mss := 1400, nis_domain := Some ''nis.example'',
         mtu := 1500, mtu_source := 3\<rparr>)) = Some ''nis.example''
   \<and> nis_domain (nm_ip4_config_merge nm_platform_ip_address_cmp_expiry
      (nm_ip4_config_new\<lparr>nis_domain := Some ''old.example'', mtu := 1400, mtu_source := 3\<rparr>)
      nm_ip4_config_new) = Some ''old.example''
   \<and> mtu (nm_ip4_config_merge nm_platform_ip_address_cmp_expiry
      (nm_ip4_config_new\<lparr>nis_domain := Some ''old.example'', mtu := 1400, mtu_source := 3\<rparr>)
      nm_ip4_config_new) = 1400"
  using merge_scalar_fields [where cmp_expiry = nm_platform_ip_address_cmp_expiry
      and dst = "nm_ip4_config_new\<lparr>gateway := ipv4 10 0 0 1\<rparr>"
      and src = "nm_ip4_config_new\<lparr>gateway := ipv4 10 0 0 254, mss := 1400,
         nis_domain := Some ''nis.example'', mtu := 1500, mtu_source := 3\<rparr>"]
    merge_scalar_fields [where cmp_expiry = nm_platform_ip_address_cmp_expiry
      and dst = "nm_ip4_config_new\<lparr>nis_domain := Some ''old.example'', mtu := 1400, mtu_source := 3\<rparr>"
      and src = nm_ip4_config_new]
  by (simp add: nm_ip4_config_new_def nm_ip4_config_set_mtu_def ipv4_def)

subsection \<open>Addresses: \<^verbatim>\<open>nm_ip4_config_add_address\<close>\<close>

lemma add_address_items_first:
  "i < length xs \<Longrightarrow> a_address (xs ! i) = a_address new
   \<Longrightarrow> (\<And>j. j < i \<Longrightarrow> a_address (xs ! j) \<noteq> a_address new)
   \<Longrightarrow> add_address_items ce xs new = xs[i := add_address_item ce (xs ! i) new]"
proof (induction xs arbitrary: i)
  case Nil
  then show ?case by simp
next
  case (Cons x xs)
  show ?case
  proof (cases i)
    case 0
    with Cons.prems show ?thesis by (simp add: addresses_are_duplicate_def)
  next
    case (Suc k)
    have nd: "a_address x \<noteq> a_address new"
      using Cons.prems(3) [of 0] Suc by simp
    have "add_address_items ce xs new = xs[k := add_address_item ce (xs ! k) new]"
    proof (rule Cons.IH)
      show "k < length xs" using Cons.prems(1) Suc by simp
      show "a_address (xs ! k) = a_address new" using Cons.prems(2) Suc by simp
      show "a_address (xs ! j) \<noteq> a_address new" if "j < k" for j
        using Cons.prems(3) [of "Suc j"] that Suc by simp
    qed
    with nd Suc show ?thesis by (simp add: addresses_are_duplicate_def)
  qed
qed

lemma add_address_items_absent:
  "a_address new \<notin> a_address ` set xs \<Longrightarrow> add_address_items ce xs new = xs @ [new]"
  by (induction xs) (auto simp: addresses_are_duplicate_def)

lemma add_address_item_address:
  "a_address item = a_address new \<Longrightarrow> a_address (add_address_item ce item new) = a_address new"
  by (simp add: add_address_item_def Let_def)

text \<open>
  C4. The comment of \<^verbatim>\<open>nm_ip4_config_add_address\<close> says that an address with the
  same basic properties (address, prefix) is overwritten. The code looks for a stored
  entry with the address of \<open>new\<close> and does not compare the prefix length
  (\<^verbatim>\<open>addresses_are_duplicate\<close> with \<^verbatim>\<open>consider_plen\<close> false). The
  configuration holds 10.0.0.5/16 and 10.0.0.5/24, both with lifetime 1000; the
  argument is 10.0.0.5/24 with lifetime 2000, from the same source and expiring later.
  The stored entry with the identity of the argument, at index 1, keeps its lifetime;
  the entry 10.0.0.5/16 is overwritten and now has that identity too. The result is
  not the one of the comment, where 10.0.0.5/16 stays and 10.0.0.5/24 has lifetime 2000.
\<close>

theorem add_address_ignores_prefix:
  "addresses (nm_ip4_config_add_address nm_platform_ip_address_cmp_expiry
       (nm_ip4_config_new\<lparr>addresses := [address_of (ipv4 10 0 0 5) 16 3 100 1000,
                                          address_of (ipv4 10 0 0 5) 24 3 100 1000]\<rparr>)
       (address_of (ipv4 10 0 0 5) 24 3 100 2000))
   = [address_of (ipv4 10 0 0 5) 24 3 100 2000, address_of (ipv4 10 0 0 5) 24 3 100 1000]
   \<and> addresses (nm_ip4_config_add_address nm_platform_ip_address_cmp_expiry
       (nm_ip4_config_new\<lparr>addresses := [address_of (ipv4 10 0 0 5) 16 3 100 1000,
                                          address_of (ipv4 10 0 0 5) 24 3 100 1000]\<rparr>)
       (address_of (ipv4 10 0 0 5) 24 3 100 2000))
   \<noteq> [address_of (ipv4 10 0 0 5) 16 3 100 1000, address_of (ipv4 10 0 0 5) 24 3 100 2000]
   \<and> nm_platform_ip_address_cmp_expiry (address_of (ipv4 10 0 0 5) 24 3 100 1000)
        (address_of (ipv4 10 0 0 5) 24 3 100 2000) = - 1"
  by (simp add: nm_ip4_config_add_address_def nm_ip4_config_new_def address_of_def
      addresses_are_duplicate_def add_address_item_def nm_platform_ip4_address_cmp_def
      nm_platform_ip_address_cmp_expiry_def expiry_def NM_PLATFORM_LIFETIME_PERMANENT_def
      NM_IP_CONFIG_SOURCE_KERNEL_def)

text \<open>
  Where no entry before it has the address of \<open>new\<close>, the entry with the address
  and the prefix length of \<open>new\<close> is the one the loop finds. Let the stored entry
  at index \<open>i\<close> be such an entry and differ from \<open>new\<close>. Then
  \<^verbatim>\<open>nm_ip4_config_add_address\<close> overwrites that entry with
  \<open>new\<close>, label included, except that it keeps the old timestamp, lifetime and
  preferred lifetime when \<open>new\<close> comes from the kernel and the old entry does not,
  or when the expiry comparison of the old entry with \<open>new\<close> is positive (the old
  entry expires later); the source is the higher of the old and the new one.
\<close>

theorem add_address_collision:
  assumes "i < length (addresses config)"
    and "a_address (addresses config ! i) = a_address new"
    and "a_plen (addresses config ! i) = a_plen new"
    and "addresses config ! i \<noteq> new"
    and "\<forall>j < i. a_address (addresses config ! j) \<noteq> a_address new"
  shows "nm_ip4_config_add_address cmp_expiry config new
         = config\<lparr>addresses := (addresses config)
             [i := (if (a_source new = NM_IP_CONFIG_SOURCE_KERNEL
                        \<and> a_source (addresses config ! i) \<noteq> NM_IP_CONFIG_SOURCE_KERNEL)
                       \<or> 0 < cmp_expiry (addresses config ! i) new
                    then new\<lparr>a_source := max (a_source (addresses config ! i)) (a_source new),
                             a_timestamp := a_timestamp (addresses config ! i),
                             a_lifetime := a_lifetime (addresses config ! i),
                             a_preferred := a_preferred (addresses config ! i)\<rparr>
                    else new\<lparr>a_source := max (a_source (addresses config ! i)) (a_source new)\<rparr>)]\<rparr>"
proof -
  have "add_address_items cmp_expiry (addresses config) new
        = (addresses config)[i := add_address_item cmp_expiry (addresses config ! i) new]"
    using assms(1,2,5) by (intro add_address_items_first) auto
  moreover have "add_address_item cmp_expiry (addresses config ! i) new
     = (if (a_source new = NM_IP_CONFIG_SOURCE_KERNEL
                        \<and> a_source (addresses config ! i) \<noteq> NM_IP_CONFIG_SOURCE_KERNEL)
                       \<or> 0 < cmp_expiry (addresses config ! i) new
                    then new\<lparr>a_source := max (a_source (addresses config ! i)) (a_source new),
                             a_timestamp := a_timestamp (addresses config ! i),
                             a_lifetime := a_lifetime (addresses config ! i),
                             a_preferred := a_preferred (addresses config ! i)\<rparr>
                    else new\<lparr>a_source := max (a_source (addresses config ! i)) (a_source new)\<rparr>)"
    using assms(4) by (auto simp: add_address_item_def nm_platform_ip4_address_cmp_def Let_def)
  ultimately show ?thesis
    by (simp add: nm_ip4_config_add_address_def)
qed

text \<open>
  The stored 10.0.0.5/24 comes from source 3 with lifetime 1000. The same address
  from the kernel (source 1) with lifetime 2000 leaves source and lifetime as they
  are and sets the label; from source 4 with lifetime 2000 it overwrites the lifetime
  and raises the source; from source 4 with lifetime 500 it raises the source and
  keeps the lifetime, which ends later.
\<close>

theorem add_address_collision_witness:
  "nm_ip4_config_add_address nm_platform_ip_address_cmp_expiry
     (nm_ip4_config_new\<lparr>addresses := [address_of (ipv4 10 0 0 5) 24 3 100 1000]\<rparr>)
     ((address_of (ipv4 10 0 0 5) 24 1 100 2000)\<lparr>a_label := ''eth0:1''\<rparr>)
   = nm_ip4_config_new\<lparr>addresses := [(address_of (ipv4 10 0 0 5) 24 3 100 1000)\<lparr>a_label := ''eth0:1''\<rparr>]\<rparr>
   \<and> nm_ip4_config_add_address nm_platform_ip_address_cmp_expiry
     (nm_ip4_config_new\<lparr>addresses := [address_of (ipv4 10 0 0 5) 24 3 100 1000]\<rparr>)
     (address_of (ipv4 10 0 0 5) 24 4 100 2000)
   = nm_ip4_config_new\<lparr>addresses := [address_of (ipv4 10 0 0 5) 24 4 100 2000]\<rparr>
   \<and> nm_ip4_config_add_address nm_platform_ip_address_cmp_expiry
     (nm_ip4_config_new\<lparr>addresses := [address_of (ipv4 10 0 0 5) 24 3 100 1000]\<rparr>)
     (address_of (ipv4 10 0 0 5) 24 4 100 500)
   = nm_ip4_config_new\<lparr>addresses := [address_of (ipv4 10 0 0 5) 24 4 100 1000]\<rparr>"
  using add_address_collision [where cmp_expiry = nm_platform_ip_address_cmp_expiry and i = 0
      and config = "nm_ip4_config_new\<lparr>addresses := [address_of (ipv4 10 0 0 5) 24 3 100 1000]\<rparr>"
      and new = "(address_of (ipv4 10 0 0 5) 24 1 100 2000)\<lparr>a_label := ''eth0:1''\<rparr>"]
    add_address_collision [where cmp_expiry = nm_platform_ip_address_cmp_expiry and i = 0
      and config = "nm_ip4_config_new\<lparr>addresses := [address_of (ipv4 10 0 0 5) 24 3 100 1000]\<rparr>"
      and new = "address_of (ipv4 10 0 0 5) 24 4 100 2000"]
    add_address_collision [where cmp_expiry = nm_platform_ip_address_cmp_expiry and i = 0
      and config = "nm_ip4_config_new\<lparr>addresses := [address_of (ipv4 10 0 0 5) 24 3 100 1000]\<rparr>"
      and new = "address_of (ipv4 10 0 0 5) 24 4 100 500"]
  by (simp add: nm_ip4_config_new_def address_of_def
      nm_platform_ip_address_cmp_expiry_def expiry_def NM_PLATFORM_LIFETIME_PERMANENT_def
      NM_IP_CONFIG_SOURCE_KERNEL_def)

lemma add_address_item_idem:
  assumes dep: "\<And>a a' b. a_timestamp a = a_timestamp a' \<Longrightarrow> a_lifetime a = a_lifetime a'
                 \<Longrightarrow> a_preferred a = a_preferred a' \<Longrightarrow> ce a b = ce a' b"
    and src: "a_source new = NM_IP_CONFIG_SOURCE_KERNEL \<Longrightarrow> NM_IP_CONFIG_SOURCE_KERNEL \<le> a_source item"
  shows "add_address_item ce (add_address_item ce item new) new = add_address_item ce item new"
proof (cases "item = new")
  case True
  then show ?thesis by (simp add: add_address_item_def nm_platform_ip4_address_cmp_def)
next
  case False
  let ?keep = "(a_source new = NM_IP_CONFIG_SOURCE_KERNEL \<and> a_source new \<noteq> a_source item)
              \<or> ce item new > 0"
  let ?m = "new\<lparr>a_source := max (a_source item) (a_source new)\<rparr>"
  show ?thesis
  proof (cases ?keep)
    case keep: True
    let ?r = "?m\<lparr>a_timestamp := a_timestamp item, a_lifetime := a_lifetime item,
                  a_preferred := a_preferred item\<rparr>"
    have r: "add_address_item ce item new = ?r"
      using False keep by (simp add: add_address_item_def nm_platform_ip4_address_cmp_def Let_def)
    have ce: "ce ?r new = ce item new"
      by (rule dep) simp_all
    have keep2: "(a_source new = NM_IP_CONFIG_SOURCE_KERNEL \<and> a_source new \<noteq> a_source ?r)
              \<or> ce ?r new > 0"
      using keep src ce by (auto simp: max_def)
    have "add_address_item ce ?r new = ?r"
      using keep2 by (simp add: add_address_item_def nm_platform_ip4_address_cmp_def Let_def)
    with r show ?thesis by simp
  next
    case nokeep: False
    have r: "add_address_item ce item new = ?m"
      using False nokeep by (auto simp: add_address_item_def nm_platform_ip4_address_cmp_def Let_def)
    have "add_address_item ce ?m new = ?m"
      by (auto simp: add_address_item_def nm_platform_ip4_address_cmp_def Let_def)
    with r show ?thesis by simp
  qed
qed

lemma add_address_items_idem:
  assumes dep: "\<And>a a' b. a_timestamp a = a_timestamp a' \<Longrightarrow> a_lifetime a = a_lifetime a'
                 \<Longrightarrow> a_preferred a = a_preferred a' \<Longrightarrow> ce a b = ce a' b"
    and src: "\<And>item. item \<in> set xs \<Longrightarrow> a_address item = a_address new
                \<Longrightarrow> a_source new = NM_IP_CONFIG_SOURCE_KERNEL
                \<Longrightarrow> NM_IP_CONFIG_SOURCE_KERNEL \<le> a_source item"
  shows "add_address_items ce (add_address_items ce xs new) new = add_address_items ce xs new"
  using src
proof (induction xs)
  case Nil
  show ?case
    by (simp add: addresses_are_duplicate_def add_address_item_def nm_platform_ip4_address_cmp_def)
next
  case (Cons x xs)
  show ?case
  proof (cases "a_address x = a_address new")
    case True
    have "add_address_item ce (add_address_item ce x new) new = add_address_item ce x new"
    proof (rule add_address_item_idem)
      show "ce a b = ce a' b" if "a_timestamp a = a_timestamp a'" "a_lifetime a = a_lifetime a'"
        "a_preferred a = a_preferred a'" for a a' b
        using that by (rule dep)
      show "NM_IP_CONFIG_SOURCE_KERNEL \<le> a_source x" if "a_source new = NM_IP_CONFIG_SOURCE_KERNEL"
        using Cons.prems [of x] True that by simp
    qed
    then show ?thesis
      using True by (simp add: addresses_are_duplicate_def add_address_item_address)
  next
    case False
    then show ?thesis using Cons by (simp add: addresses_are_duplicate_def)
  qed
qed

text \<open>
  C9, as the claim states it, fails. The stored 10.0.0.5/24 has the unknown source
  and lifetime 1000; the argument is the same address from the kernel with lifetime
  2000. The first call keeps the stored lifetime, since the kernel reports an address
  of another source, and raises the source to that of the kernel. The second call
  then finds an entry of the kernel's with a lifetime that ends no later, and
  overwrites the lifetime.
\<close>

theorem add_address_idempotent_counterexample:
  "nm_ip4_config_add_address nm_platform_ip_address_cmp_expiry
     (nm_ip4_config_new\<lparr>addresses := [address_of (ipv4 10 0 0 5) 24 0 100 1000]\<rparr>)
     (address_of (ipv4 10 0 0 5) 24 1 100 2000)
   = nm_ip4_config_new\<lparr>addresses := [address_of (ipv4 10 0 0 5) 24 1 100 1000]\<rparr>
   \<and> nm_ip4_config_add_address nm_platform_ip_address_cmp_expiry
     (nm_ip4_config_add_address nm_platform_ip_address_cmp_expiry
        (nm_ip4_config_new\<lparr>addresses := [address_of (ipv4 10 0 0 5) 24 0 100 1000]\<rparr>)
        (address_of (ipv4 10 0 0 5) 24 1 100 2000))
     (address_of (ipv4 10 0 0 5) 24 1 100 2000)
   = nm_ip4_config_new\<lparr>addresses := [address_of (ipv4 10 0 0 5) 24 1 100 2000]\<rparr>"
  by (simp add: nm_ip4_config_add_address_def nm_ip4_config_new_def address_of_def
      addresses_are_duplicate_def add_address_item_def nm_platform_ip4_address_cmp_def
      nm_platform_ip_address_cmp_expiry_def expiry_def NM_PLATFORM_LIFETIME_PERMANENT_def
      NM_IP_CONFIG_SOURCE_KERNEL_def)

text \<open>
  C9, amended. A second call of \<^verbatim>\<open>nm_ip4_config_add_address\<close> with the same
  record changes nothing, provided that, when the record comes from the kernel, no
  stored entry with its address has a source below the kernel's (the unknown source).
  The expiry comparison is taken to read nothing of an entry but its timestamp,
  lifetime and preferred lifetime.
\<close>

theorem add_address_idempotent:
  assumes "\<And>a a' b. a_timestamp a = a_timestamp a' \<Longrightarrow> a_lifetime a = a_lifetime a'
             \<Longrightarrow> a_preferred a = a_preferred a' \<Longrightarrow> cmp_expiry a b = cmp_expiry a' b"
    and "a_source new = NM_IP_CONFIG_SOURCE_KERNEL \<Longrightarrow>
           \<forall>item \<in> set (addresses config). a_address item = a_address new
              \<longrightarrow> NM_IP_CONFIG_SOURCE_KERNEL \<le> a_source item"
  shows "nm_ip4_config_add_address cmp_expiry (nm_ip4_config_add_address cmp_expiry config new) new
         = nm_ip4_config_add_address cmp_expiry config new"
proof -
  have "add_address_items cmp_expiry (add_address_items cmp_expiry (addresses config) new) new
        = add_address_items cmp_expiry (addresses config) new"
  proof (rule add_address_items_idem)
    show "cmp_expiry a b = cmp_expiry a' b"
      if "a_timestamp a = a_timestamp a'" "a_lifetime a = a_lifetime a'"
        "a_preferred a = a_preferred a'" for a a' b
      using that by (rule assms(1))
    show "NM_IP_CONFIG_SOURCE_KERNEL \<le> a_source item"
      if "item \<in> set (addresses config)" "a_address item = a_address new"
        "a_source new = NM_IP_CONFIG_SOURCE_KERNEL" for item
      using assms(2) that by blast
  qed
  then show ?thesis by (simp add: nm_ip4_config_add_address_def)
qed

lemma cmp_expiry_reads_lifetimes:
  "a_timestamp a = a_timestamp a' \<Longrightarrow> a_lifetime a = a_lifetime a'
   \<Longrightarrow> nm_platform_ip_address_cmp_expiry a b = nm_platform_ip_address_cmp_expiry a' b"
  by (simp add: nm_platform_ip_address_cmp_expiry_def expiry_def)

text \<open>
  The stored 10.0.0.5/24 comes from source 3 with lifetime 1000, the record from the
  kernel with lifetime 2000: the first call keeps source and lifetime and sets the
  label, and so does the second.
\<close>

theorem add_address_idempotent_witness:
  "nm_ip4_config_add_address nm_platform_ip_address_cmp_expiry
     (nm_ip4_config_add_address nm_platform_ip_address_cmp_expiry
        (nm_ip4_config_new\<lparr>addresses := [address_of (ipv4 10 0 0 5) 24 3 100 1000]\<rparr>)
        ((address_of (ipv4 10 0 0 5) 24 1 100 2000)\<lparr>a_label := ''eth0:1''\<rparr>))
     ((address_of (ipv4 10 0 0 5) 24 1 100 2000)\<lparr>a_label := ''eth0:1''\<rparr>)
   = nm_ip4_config_new\<lparr>addresses := [(address_of (ipv4 10 0 0 5) 24 3 100 1000)\<lparr>a_label := ''eth0:1''\<rparr>]\<rparr>"
proof -
  let ?config = "nm_ip4_config_new\<lparr>addresses := [address_of (ipv4 10 0 0 5) 24 3 100 1000]\<rparr>"
  let ?new = "(address_of (ipv4 10 0 0 5) 24 1 100 2000)\<lparr>a_label := ''eth0:1''\<rparr>"
  have once: "nm_ip4_config_add_address nm_platform_ip_address_cmp_expiry ?config ?new
     = nm_ip4_config_new\<lparr>addresses := [(address_of (ipv4 10 0 0 5) 24 3 100 1000)\<lparr>a_label := ''eth0:1''\<rparr>]\<rparr>"
    by (simp add: nm_ip4_config_add_address_def nm_ip4_config_new_def address_of_def
      addresses_are_duplicate_def add_address_item_def nm_platform_ip4_address_cmp_def
      nm_platform_ip_address_cmp_expiry_def expiry_def NM_PLATFORM_LIFETIME_PERMANENT_def
      NM_IP_CONFIG_SOURCE_KERNEL_def)
  have "nm_ip4_config_add_address nm_platform_ip_address_cmp_expiry
          (nm_ip4_config_add_address nm_platform_ip_address_cmp_expiry ?config ?new) ?new
        = nm_ip4_config_add_address nm_platform_ip_address_cmp_expiry ?config ?new"
  proof (rule add_address_idempotent)
    show "nm_platform_ip_address_cmp_expiry a b = nm_platform_ip_address_cmp_expiry a' b"
      if "a_timestamp a = a_timestamp a'" "a_lifetime a = a_lifetime a'" for a a' b
      using that by (rule cmp_expiry_reads_lifetimes)
    show "\<forall>item \<in> set (addresses ?config). a_address item = a_address ?new
              \<longrightarrow> NM_IP_CONFIG_SOURCE_KERNEL \<le> a_source item"
      by (simp add: address_of_def NM_IP_CONFIG_SOURCE_KERNEL_def)
  qed
  with once show ?thesis by simp
qed

subsection \<open>Subtract: the loops as list functions\<close>

lemma first_index_remove:
  "(case first_index P xs of None \<Rightarrow> xs | Some j \<Rightarrow> if j < length xs then g_array_remove_index xs j else xs)
   = remove_first P xs"
proof (induction xs)
  case Nil
  show ?case by simp
next
  case (Cons x xs)
  then show ?case
    by (cases "first_index P xs") (auto simp: g_array_remove_index_def)
qed

lemma first_index_bound: "first_index P xs = Some j \<Longrightarrow> j < length xs"
  by (induction xs arbitrary: j) (auto split: if_splits)

lemma subtract_address_update:
  "subtract_address src_addr = addresses_update (remove_first (\<lambda>dst_addr. a_address src_addr = a_address dst_addr \<and> a_plen src_addr = a_plen dst_addr))"
proof
  fix d
  let ?P = "\<lambda>dst_addr. a_address src_addr = a_address dst_addr \<and> a_plen src_addr = a_plen dst_addr"
  show "subtract_address src_addr d = addresses_update (remove_first ?P) d"
    using first_index_remove [where P = ?P and xs = "addresses d"]
    by (auto simp: subtract_address_def nm_ip4_config_del_address_def
        dest: first_index_bound split: option.splits)
qed

lemma subtract_route_update:
  "subtract_route src_route = routes_update (remove_first (\<lambda>dst_route. r_network src_route = r_network dst_route \<and> r_plen src_route = r_plen dst_route))"
proof
  fix d
  let ?P = "\<lambda>dst_route. r_network src_route = r_network dst_route \<and> r_plen src_route = r_plen dst_route"
  show "subtract_route src_route d = routes_update (remove_first ?P) d"
    using first_index_remove [where P = ?P and xs = "routes d"]
    by (auto simp: subtract_route_def nm_ip4_config_del_route_def
        dest: first_index_bound split: option.splits)
qed

lemma subtract_nameserver_update:
  "subtract_nameserver n = nameservers_update (remove_first (\<lambda>x. x = n))"
proof
  fix d
  show "subtract_nameserver n d = nameservers_update (remove_first (\<lambda>x. x = n)) d"
    using first_index_remove [where P = "\<lambda>x. x = n" and xs = "nameservers d"]
    by (auto simp: subtract_nameserver_def nm_ip4_config_del_nameserver_def
        dest: first_index_bound split: option.splits)
qed

lemma subtract_domain_update:
  "subtract_domain n = domains_update (remove_first (\<lambda>x. n = x))"
proof
  fix d
  show "subtract_domain n d = domains_update (remove_first (\<lambda>x. n = x)) d"
    using first_index_remove [where P = "\<lambda>x. n = x" and xs = "domains d"]
    by (auto simp: subtract_domain_def nm_ip4_config_del_domain_def
        dest: first_index_bound split: option.splits)
qed

lemma subtract_search_update:
  "subtract_search n = searches_update (remove_first (\<lambda>x. n = x))"
proof
  fix d
  show "subtract_search n d = searches_update (remove_first (\<lambda>x. n = x)) d"
    using first_index_remove [where P = "\<lambda>x. n = x" and xs = "searches d"]
    by (auto simp: subtract_search_def nm_ip4_config_del_search_def
        dest: first_index_bound split: option.splits)
qed

lemma subtract_nis_server_update:
  "subtract_nis_server n = nis_update (remove_first (\<lambda>x. x = n))"
proof
  fix d
  show "subtract_nis_server n d = nis_update (remove_first (\<lambda>x. x = n)) d"
    using first_index_remove [where P = "\<lambda>x. x = n" and xs = "nis d"]
    by (auto simp: subtract_nis_server_def nm_ip4_config_del_nis_server_def
        dest: first_index_bound split: option.splits)
qed

lemma subtract_wins_update:
  "subtract_wins n = wins_update (remove_first (\<lambda>x. x = n))"
proof
  fix d
  show "subtract_wins n d = wins_update (remove_first (\<lambda>x. x = n)) d"
    using first_index_remove [where P = "\<lambda>x. x = n" and xs = "wins d"]
    by (auto simp: subtract_wins_def nm_ip4_config_del_wins_def
        dest: first_index_bound split: option.splits)
qed

lemmas subtract_updates = subtract_address_update subtract_route_update subtract_nameserver_update
  subtract_domain_update subtract_search_update subtract_nis_server_update subtract_wins_update

subsection \<open>Replace: the steps as field updates\<close>

lemma arrays_are_equal_iff: "arrays_are_equal xs ys \<longleftrightarrow> xs = ys"
proof -
  have "length xs = length ys \<Longrightarrow> elements_are_equal (zip xs ys) \<longleftrightarrow> xs = ys"
    by (induction xs ys rule: list_induct2) auto
  then show ?thesis by (auto simp: arrays_are_equal_def)
qed

lemmas resets = nm_ip4_config_reset_addresses_def nm_ip4_config_reset_routes_def
  nm_ip4_config_reset_nameservers_def nm_ip4_config_reset_domains_def
  nm_ip4_config_reset_searches_def nm_ip4_config_reset_nis_servers_def
  nm_ip4_config_reset_wins_def

lemma replace_never_default_eq:
  "replace_never_default src (d, m, r)
   = (d\<lparr>never_default := never_default src\<rparr>, (m \<or> never_default src \<noteq> never_default d), r)"
  by (cases d) auto

lemma replace_gateway_eq:
  "replace_gateway src (d, m, r) = (d\<lparr>gateway := gateway src\<rparr>, m, (r \<or> gateway src \<noteq> gateway d))"
  by (cases d) (auto simp: setters)

lemma replace_addresses_eq:
  "replace_addresses ce src (d, m, r)
   = (addresses_update (\<lambda>xs. if fst (replace_addresses_scan (addresses src) xs) then xs
                               else fold (\<lambda>a l. add_address_items ce l a) (addresses src) []) d,
      (m \<or> \<not> fst (replace_addresses_scan (addresses src) (addresses d))),
      (r \<or> snd (replace_addresses_scan (addresses src) (addresses d))))"
  by (cases d) (auto simp: add_updates fold_updates resets split: prod.splits)

lemma replace_routes_eq:
  "replace_routes src (d, m, r)
   = (routes_update (\<lambda>xs. if fst (replace_routes_scan (routes src) xs) then xs
         else fold (\<lambda>r l. if 0 < r_plen r then add_route_items l r else l) (routes src) []) d,
      (m \<or> \<not> fst (replace_routes_scan (routes src) (routes d))),
      (r \<or> snd (replace_routes_scan (routes src) (routes d))))"
  by (cases d) (auto simp: add_updates fold_updates resets split: prod.splits)

lemma replace_nameservers_eq:
  "replace_nameservers src (d, m, r)
   = (nameservers_update (\<lambda>xs. if nameservers src = xs then xs
         else fold (\<lambda>n l. if n = 0 then l else add_unique n l) (nameservers src) []) d,
      m, (r \<or> nameservers src \<noteq> nameservers d))"
  by (cases d) (auto simp: add_updates fold_updates resets arrays_are_equal_iff)

lemma replace_domains_eq:
  "replace_domains src (d, m, r)
   = (domains_update (\<lambda>xs. if domains src = xs then xs
         else fold (\<lambda>n l. if n = [] then l else add_unique n l) (domains src) []) d,
      m, (r \<or> domains src \<noteq> domains d))"
  by (cases d) (auto simp: add_updates fold_updates resets arrays_are_equal_iff)

lemma replace_searches_eq:
  "replace_searches src (d, m, r)
   = (searches_update (\<lambda>xs. if searches src = xs then xs
         else fold (\<lambda>n l. if n = [] then l else add_unique n l) (searches src) []) d,
      m, (r \<or> searches src \<noteq> searches d))"
  by (cases d) (auto simp: add_updates fold_updates resets arrays_are_equal_iff)

lemma replace_mss_eq:
  "replace_mss src (d, m, r) = (d\<lparr>mss := mss src\<rparr>, (m \<or> mss src \<noteq> mss d), r)"
  by (cases d) (auto simp: setters)

lemma replace_nis_eq:
  "replace_nis src (d, m, r)
   = (nis_update (\<lambda>xs. if nis src = xs then xs else fold add_unique (nis src) []) d,
      m, (r \<or> nis src \<noteq> nis d))"
  by (cases d) (auto simp: add_updates fold_updates resets arrays_are_equal_iff)

lemma replace_nis_domain_eq:
  "replace_nis_domain src (d, m, r)
   = (d\<lparr>nis_domain := nis_domain src\<rparr>, m, (r \<or> nis_domain src \<noteq> nis_domain d))"
  by (cases d) (auto simp: setters)

lemma replace_wins_eq:
  "replace_wins src (d, m, r)
   = (wins_update (\<lambda>xs. if wins src = xs then xs
         else fold (\<lambda>n l. if n = 0 then l else add_unique n l) (wins src) []) d,
      m, (r \<or> wins src \<noteq> wins d))"
  by (cases d) (auto simp: add_updates fold_updates resets arrays_are_equal_iff)

lemma replace_mtu_eq:
  "replace_mtu src (d, m, r)
   = (if mtu src \<noteq> mtu d then nm_ip4_config_set_mtu d (mtu src) (mtu_source src) else d,
      (m \<or> mtu src \<noteq> mtu d), r)"
  by auto

lemmas replace_steps = replace_never_default_eq replace_gateway_eq replace_addresses_eq
  replace_routes_eq replace_nameservers_eq replace_domains_eq replace_searches_eq
  replace_mss_eq replace_nis_eq replace_nis_domain_eq replace_wins_eq replace_mtu_eq

lemma replace_fields_relevant:
  "snd (snd (replace_fields ce dst src))
   \<longleftrightarrow> gateway src \<noteq> gateway dst
       \<or> snd (replace_addresses_scan (addresses src) (addresses dst))
       \<or> snd (replace_routes_scan (routes src) (routes dst))
       \<or> nameservers src \<noteq> nameservers dst
       \<or> domains src \<noteq> domains dst
       \<or> searches src \<noteq> searches dst
       \<or> nis src \<noteq> nis dst
       \<or> nis_domain src \<noteq> nis_domain dst
       \<or> wins src \<noteq> wins dst"
  unfolding replace_fields_def replace_steps by auto

lemma replace_fields_addresses:
  "addresses (fst (replace_fields ce dst src))
   = (if fst (replace_addresses_scan (addresses src) (addresses dst)) then addresses dst
      else fold (\<lambda>a l. add_address_items ce l a) (addresses src) [])"
  unfolding replace_fields_def replace_steps by (simp add: setters)

lemma replace_fields_routes:
  "routes (fst (replace_fields ce dst src))
   = (if fst (replace_routes_scan (routes src) (routes dst)) then routes dst
      else fold (\<lambda>r l. if 0 < r_plen r then add_route_items l r else l) (routes src) [])"
  unfolding replace_fields_def replace_steps by (simp add: setters)

subsection \<open>Replace and equal\<close>

lemma addresses_loop_keys:
  "length xs = length ys \<Longrightarrow> \<not> snd (replace_addresses_loop (zip xs ys) e)
   \<Longrightarrow> map (\<lambda>a. (a_address a, a_plen a)) xs = map (\<lambda>a. (a_address a, a_plen a)) ys"
  by (induction xs ys arbitrary: e rule: list_induct2)
    (auto simp: addresses_are_duplicate_def nm_platform_ip4_address_cmp_def split: if_splits)

lemma routes_loop_keys:
  "length xs = length ys \<Longrightarrow> \<not> snd (replace_routes_loop (zip xs ys) e)
   \<Longrightarrow> map (\<lambda>r. (r_network r, r_plen r, r_gateway r, r_metric r)) xs
       = map (\<lambda>r. (r_network r, r_plen r, r_gateway r, r_metric r)) ys"
  by (induction xs ys arbitrary: e rule: list_induct2)
    (auto simp: routes_are_duplicate_def nm_platform_ip4_route_cmp_def split: if_splits)

lemma addresses_scan_keys:
  "\<not> snd (replace_addresses_scan xs ys)
   \<Longrightarrow> map (\<lambda>a. (a_address a, a_plen a)) xs = map (\<lambda>a. (a_address a, a_plen a)) ys"
  using addresses_loop_keys [of xs ys True]
  by (simp add: replace_addresses_scan_def split: if_splits)

lemma routes_scan_keys:
  "\<not> snd (replace_routes_scan xs ys)
   \<Longrightarrow> map (\<lambda>r. (r_network r, r_plen r, r_gateway r, r_metric r)) xs
       = map (\<lambda>r. (r_network r, r_plen r, r_gateway r, r_metric r)) ys"
  using routes_loop_keys [of xs ys True]
  by (simp add: replace_routes_scan_def split: if_splits)

lemma hash_addresses_keys:
  assumes "map (\<lambda>a. (a_address a, a_plen a)) xs = map (\<lambda>a. (a_address a, a_plen a)) ys"
  shows "map (\<lambda>address. hash_u32 (a_address address) @ hash_u32 (word_of_int (a_plen address))) xs
         = map (\<lambda>address. hash_u32 (a_address address) @ hash_u32 (word_of_int (a_plen address))) ys"
proof -
  have "map (\<lambda>k. hash_u32 (fst k) @ hash_u32 (word_of_int (snd k))) (map (\<lambda>a. (a_address a, a_plen a)) xs)
      = map (\<lambda>k. hash_u32 (fst k) @ hash_u32 (word_of_int (snd k))) (map (\<lambda>a. (a_address a, a_plen a)) ys)"
    using assms by simp
  then show ?thesis by (simp add: comp_def)
qed

lemma hash_routes_keys:
  assumes "map (\<lambda>r. (r_network r, r_plen r, r_gateway r, r_metric r)) xs
         = map (\<lambda>r. (r_network r, r_plen r, r_gateway r, r_metric r)) ys"
  shows "map (\<lambda>route. hash_u32 (r_network route) @ hash_u32 (word_of_int (r_plen route))
                                @ hash_u32 (r_gateway route) @ hash_u32 (r_metric route)) xs
       = map (\<lambda>route. hash_u32 (r_network route) @ hash_u32 (word_of_int (r_plen route))
                                @ hash_u32 (r_gateway route) @ hash_u32 (r_metric route)) ys"
proof -
  let ?h = "\<lambda>k. hash_u32 (fst k) @ hash_u32 (word_of_int (fst (snd k)))
              @ hash_u32 (fst (snd (snd k))) @ hash_u32 (snd (snd (snd k)))"
  have "map ?h (map (\<lambda>r. (r_network r, r_plen r, r_gateway r, r_metric r)) xs)
      = map ?h (map (\<lambda>r. (r_network r, r_plen r, r_gateway r, r_metric r)) ys)"
    using assms by simp
  then show ?thesis by (simp add: comp_def)
qed

text \<open>
  One half of what \<^verbatim>\<open>nm_ip4_config_replace\<close> asserts holds for all
  configurations: where replace finds no relevant change, the two configurations feed
  the same bytes to the checksum, and \<^verbatim>\<open>nm_ip4_config_equal\<close> is true.
\<close>

theorem no_relevant_change_equal:
  assumes "\<not> snd (snd (replace_fields cmp_expiry dst src))"
  shows "nm_ip4_config_equal dst src"
proof -
  from assms have f: "gateway src = gateway dst" "nameservers src = nameservers dst"
    "domains src = domains dst" "searches src = searches dst" "nis src = nis dst"
    "nis_domain src = nis_domain dst" "wins src = wins dst"
    and a: "\<not> snd (replace_addresses_scan (addresses src) (addresses dst))"
    and r: "\<not> snd (replace_routes_scan (routes src) (routes dst))"
    by (simp_all add: replace_fields_relevant)
  note ha = hash_addresses_keys [OF addresses_scan_keys [OF a]]
  note hr = hash_routes_keys [OF routes_scan_keys [OF r]]
  show ?thesis
    by (simp add: nm_ip4_config_equal_def nm_ip4_config_hash_def f ha hr)
qed

text \<open>
  The address 10.0.0.5/24 with lifetime 3600 in \<open>dst\<close> and with lifetime 7200
  in \<open>src\<close>: replace overwrites the address and returns that \<open>dst\<close> changed,
  with no relevant change; the two configurations are equal.
\<close>

theorem no_relevant_change_equal_witness:
  "nm_ip4_config_replace nm_platform_ip_address_cmp_expiry
     (nm_ip4_config_new\<lparr>addresses := [address_of (ipv4 10 0 0 5) 24 3 100 3600]\<rparr>)
     (nm_ip4_config_new\<lparr>addresses := [address_of (ipv4 10 0 0 5) 24 3 100 7200]\<rparr>)
   = Inr (nm_ip4_config_new\<lparr>addresses := [address_of (ipv4 10 0 0 5) 24 3 100 7200]\<rparr>, True, False)
   \<and> nm_ip4_config_equal
     (nm_ip4_config_new\<lparr>addresses := [address_of (ipv4 10 0 0 5) 24 3 100 3600]\<rparr>)
     (nm_ip4_config_new\<lparr>addresses := [address_of (ipv4 10 0 0 5) 24 3 100 7200]\<rparr>)"
proof -
  let ?dst = "nm_ip4_config_new\<lparr>addresses := [address_of (ipv4 10 0 0 5) 24 3 100 3600]\<rparr>"
  let ?src = "nm_ip4_config_new\<lparr>addresses := [address_of (ipv4 10 0 0 5) 24 3 100 7200]\<rparr>"
  have f: "replace_fields nm_platform_ip_address_cmp_expiry ?dst ?src = (?src, True, False)"
    by (simp add: replace_fields_def nm_ip4_config_new_def replace_addresses_scan_def
        replace_routes_scan_def arrays_are_equal_def resets address_of_def
        nm_platform_ip4_address_cmp_def addresses_are_duplicate_def nm_ip4_config_add_address_def)
  have e: "nm_ip4_config_equal ?dst ?src"
    by (rule no_relevant_change_equal [where cmp_expiry = nm_platform_ip_address_cmp_expiry])
      (simp add: f)
  show ?thesis using f e by (simp add: nm_ip4_config_replace_def)
qed

text \<open>
  C1. The other half fails, and with it the claim: the bytes are fed to the checksum
  one after the other with nothing between two fields or two strings. Let \<open>dst\<close>
  have the domain \<^verbatim>\<open>example.com\<close> and no search, and \<open>src\<close> the search
  \<^verbatim>\<open>example.com\<close> and no domain. Both feed the same eleven bytes, so that
  \<^verbatim>\<open>nm_ip4_config_equal\<close> is true; replace finds the domains and the searches
  changed, a relevant change, and its assertion
  \<^verbatim>\<open>g_assert (config_equal == !has_relevant_changes)\<close> fails.
\<close>

theorem replace_equal_assertion_fails:
  "nm_ip4_config_equal (nm_ip4_config_new\<lparr>domains := [''example.com'']\<rparr>)
       (nm_ip4_config_new\<lparr>searches := [''example.com'']\<rparr>)
   \<and> replace_fields nm_platform_ip_address_cmp_expiry
       (nm_ip4_config_new\<lparr>domains := [''example.com'']\<rparr>)
       (nm_ip4_config_new\<lparr>searches := [''example.com'']\<rparr>)
     = (nm_ip4_config_new\<lparr>searches := [''example.com'']\<rparr>, False, True)
   \<and> nm_ip4_config_replace nm_platform_ip_address_cmp_expiry
       (nm_ip4_config_new\<lparr>domains := [''example.com'']\<rparr>)
       (nm_ip4_config_new\<lparr>searches := [''example.com'']\<rparr>) = Inl G_assert"
proof -
  have e: "nm_ip4_config_equal (nm_ip4_config_new\<lparr>domains := [''example.com'']\<rparr>)
       (nm_ip4_config_new\<lparr>searches := [''example.com'']\<rparr>)"
    by (simp add: nm_ip4_config_equal_def nm_ip4_config_hash_def nm_ip4_config_new_def)
  have f: "replace_fields nm_platform_ip_address_cmp_expiry
       (nm_ip4_config_new\<lparr>domains := [''example.com'']\<rparr>)
       (nm_ip4_config_new\<lparr>searches := [''example.com'']\<rparr>)
     = (nm_ip4_config_new\<lparr>searches := [''example.com'']\<rparr>, False, True)"
    by (simp add: replace_fields_def nm_ip4_config_new_def replace_addresses_scan_def
        replace_routes_scan_def arrays_are_equal_def resets
        nm_ip4_config_add_search_def)
  show ?thesis using e f by (simp add: nm_ip4_config_replace_def)
qed

text \<open>
  Replacing the empty configuration by one with the address 192.168.1.10/24, the
  gateway 192.168.1.1 and the nameserver 8.8.8.8 leaves exactly that configuration,
  and reports a change that is relevant.
\<close>

theorem replace_into_empty:
  "nm_ip4_config_replace nm_platform_ip_address_cmp_expiry nm_ip4_config_new
     (nm_ip4_config_new\<lparr>gateway := ipv4 192 168 1 1,
        addresses := [address_of (ipv4 192 168 1 10) 24 4 0 0xFFFFFFFF],
        nameservers := [ipv4 8 8 8 8]\<rparr>)
   = Inr (nm_ip4_config_new\<lparr>gateway := ipv4 192 168 1 1,
        addresses := [address_of (ipv4 192 168 1 10) 24 4 0 0xFFFFFFFF],
        nameservers := [ipv4 8 8 8 8]\<rparr>, True, True)"
proof -
  let ?src = "nm_ip4_config_new\<lparr>gateway := ipv4 192 168 1 1,
        addresses := [address_of (ipv4 192 168 1 10) 24 4 0 0xFFFFFFFF],
        nameservers := [ipv4 8 8 8 8]\<rparr>"
  have f: "replace_fields nm_platform_ip_address_cmp_expiry nm_ip4_config_new ?src = (?src, True, True)"
    by (simp add: replace_fields_def nm_ip4_config_new_def replace_addresses_scan_def
        replace_routes_scan_def arrays_are_equal_def resets setters
        nm_ip4_config_add_address_def nm_ip4_config_add_nameserver_def ipv4_def)
  have e: "\<not> nm_ip4_config_equal nm_ip4_config_new ?src"
    by (simp add: nm_ip4_config_equal_def nm_ip4_config_hash_def nm_ip4_config_new_def hash_u32_def)
  show ?thesis using f e by (simp add: nm_ip4_config_replace_def)
qed

subsection \<open>Uniqueness of the identities\<close>

lemma add_address_items_addresses:
  "map a_address (add_address_items ce xs new)
   = (if a_address new \<in> set (map a_address xs) then map a_address xs
      else map a_address xs @ [a_address new])"
  by (induction xs) (auto simp: addresses_are_duplicate_def add_address_item_address)

lemma add_route_item_key:
  "routes_are_duplicate item new False
   \<Longrightarrow> (r_network (add_route_item item new), r_plen (add_route_item item new))
       = (r_network item, r_plen item)"
  by (simp add: add_route_item_def routes_are_duplicate_def Let_def)

lemma add_route_items_keys:
  "map (\<lambda>r. (r_network r, r_plen r)) (add_route_items xs new)
   = (if (r_network new, r_plen new) \<in> set (map (\<lambda>r. (r_network r, r_plen r)) xs)
      then map (\<lambda>r. (r_network r, r_plen r)) xs
      else map (\<lambda>r. (r_network r, r_plen r)) xs @ [(r_network new, r_plen new)])"
proof (induction xs)
  case Nil
  show ?case by simp
next
  case (Cons x xs)
  show ?case
  proof (cases "routes_are_duplicate x new False")
    case True
    then show ?thesis
      using add_route_item_key [OF True] by (auto simp: routes_are_duplicate_def)
  next
    case False
    then show ?thesis using Cons by (auto simp: routes_are_duplicate_def)
  qed
qed

lemma distinct_add_address_items:
  "distinct (map a_address xs) \<Longrightarrow> distinct (map a_address (add_address_items ce xs new))"
  by (simp add: add_address_items_addresses)

lemma distinct_add_route_items:
  "distinct (map (\<lambda>r. (r_network r, r_plen r)) xs)
   \<Longrightarrow> distinct (map (\<lambda>r. (r_network r, r_plen r)) (add_route_items xs new))"
  by (simp add: add_route_items_keys)

lemma distinct_fold_add_address_items:
  "distinct (map a_address xs)
   \<Longrightarrow> distinct (map a_address (fold (\<lambda>a l. add_address_items ce l a) as xs))"
  by (induction as arbitrary: xs) (simp_all add: distinct_add_address_items)

lemma distinct_fold_add_route_items:
  "distinct (map (\<lambda>r. (r_network r, r_plen r)) xs)
   \<Longrightarrow> distinct (map (\<lambda>r. (r_network r, r_plen r))
         (fold (\<lambda>r l. if 0 < r_plen r then add_route_items l r else l) rs xs))"
  by (induction rs arbitrary: xs) (simp_all add: distinct_add_route_items)

lemma set_remove_first: "set (remove_first P xs) \<subseteq> set xs"
  by (induction xs) auto

lemma distinct_remove_first:
  "distinct (map f xs) \<Longrightarrow> distinct (map f (remove_first P xs))"
proof (induction xs)
  case Nil
  show ?case by simp
next
  case (Cons x xs)
  with set_remove_first [of P xs] show ?case by auto
qed

lemma distinct_fold_remove_first:
  "distinct (map f xs) \<Longrightarrow> distinct (map f (fold (\<lambda>s. remove_first (P s)) ss xs))"
  by (induction ss arbitrary: xs) (simp_all add: distinct_remove_first)

lemma distinct_remove_index:
  "distinct (map f xs) \<Longrightarrow> distinct (map f (g_array_remove_index xs i))"
  unfolding g_array_remove_index_def
proof (induction xs arbitrary: i)
  case Nil
  show ?case by simp
next
  case (Cons x xs)
  show ?case
  proof (cases i)
    case 0
    with Cons.prems show ?thesis by simp
  next
    case (Suc k)
    have "distinct (map f (take k xs @ drop (Suc k) xs))"
      using Cons by simp
    moreover have "f x \<notin> f ` set (take k xs @ drop (Suc k) xs)"
      using Cons.prems by (auto dest: in_set_takeD in_set_dropD)
    ultimately show ?thesis using Suc by auto
  qed
qed

lemma distinct_map_pair: "distinct (map f xs) \<Longrightarrow> distinct (map (\<lambda>a. (f a, g a)) xs)"
  by (induction xs) auto

lemma fold_subtract_address:
  "fold subtract_address xs d
   = addresses_update (fold (\<lambda>s. remove_first (\<lambda>d. a_address s = a_address d \<and> a_plen s = a_plen d)) xs) d"
proof -
  have h: "subtract_address = (\<lambda>s. addresses_update (remove_first (\<lambda>d. a_address s = a_address d \<and> a_plen s = a_plen d)))"
    by (intro ext) (simp add: subtract_address_update)
  show ?thesis unfolding h by (rule fold_addresses_update)
qed

lemma fold_subtract_route:
  "fold subtract_route xs d
   = routes_update (fold (\<lambda>s. remove_first (\<lambda>d. r_network s = r_network d \<and> r_plen s = r_plen d)) xs) d"
proof -
  have h: "subtract_route = (\<lambda>s. routes_update (remove_first (\<lambda>d. r_network s = r_network d \<and> r_plen s = r_plen d)))"
    by (intro ext) (simp add: subtract_route_update)
  show ?thesis unfolding h by (rule fold_routes_update)
qed

lemma fold_subtract_nameserver:
  "fold subtract_nameserver xs d = nameservers_update (fold (\<lambda>s. remove_first (\<lambda>x. x = s)) xs) d"
proof -
  have h: "subtract_nameserver = (\<lambda>s. nameservers_update (remove_first (\<lambda>x. x = s)))"
    by (intro ext) (simp add: subtract_nameserver_update)
  show ?thesis unfolding h by (rule fold_nameservers_update)
qed

lemma fold_subtract_domain:
  "fold subtract_domain xs d = domains_update (fold (\<lambda>s. remove_first (\<lambda>x. s = x)) xs) d"
proof -
  have h: "subtract_domain = (\<lambda>s. domains_update (remove_first (\<lambda>x. s = x)))"
    by (intro ext) (simp add: subtract_domain_update)
  show ?thesis unfolding h by (rule fold_domains_update)
qed

lemma fold_subtract_search:
  "fold subtract_search xs d = searches_update (fold (\<lambda>s. remove_first (\<lambda>x. s = x)) xs) d"
proof -
  have h: "subtract_search = (\<lambda>s. searches_update (remove_first (\<lambda>x. s = x)))"
    by (intro ext) (simp add: subtract_search_update)
  show ?thesis unfolding h by (rule fold_searches_update)
qed

lemma fold_subtract_nis_server:
  "fold subtract_nis_server xs d = nis_update (fold (\<lambda>s. remove_first (\<lambda>x. x = s)) xs) d"
proof -
  have h: "subtract_nis_server = (\<lambda>s. nis_update (remove_first (\<lambda>x. x = s)))"
    by (intro ext) (simp add: subtract_nis_server_update)
  show ?thesis unfolding h by (rule fold_nis_update)
qed

lemma fold_subtract_wins:
  "fold subtract_wins xs d = wins_update (fold (\<lambda>s. remove_first (\<lambda>x. x = s)) xs) d"
proof -
  have h: "subtract_wins = (\<lambda>s. wins_update (remove_first (\<lambda>x. x = s)))"
    by (intro ext) (simp add: subtract_wins_update)
  show ?thesis unfolding h by (rule fold_wins_update)
qed

lemmas fold_subtracts = fold_subtract_address fold_subtract_route fold_subtract_nameserver
  fold_subtract_domain fold_subtract_search fold_subtract_nis_server fold_subtract_wins

lemma merge_addresses:
  "addresses (nm_ip4_config_merge ce dst src)
     = fold (\<lambda>a xs. add_address_items ce xs a) (addresses src) (addresses dst)"
  by (simp add: nm_ip4_config_merge_def Let_def add_updates fold_updates setters split: option.splits)

lemma merge_routes:
  "routes (nm_ip4_config_merge ce dst src)
     = fold (\<lambda>r l. if 0 < r_plen r then add_route_items l r else l) (routes src) (routes dst)"
  by (simp add: nm_ip4_config_merge_def Let_def add_updates fold_updates setters split: option.splits)

lemma subtract_addresses:
  "addresses (nm_ip4_config_subtract dst src)
     = fold (\<lambda>s. remove_first (\<lambda>d. a_address s = a_address d \<and> a_plen s = a_plen d)) (addresses src) (addresses dst)"
  by (simp add: nm_ip4_config_subtract_def Let_def fold_subtracts setters)

lemma subtract_routes:
  "routes (nm_ip4_config_subtract dst src)
     = fold (\<lambda>s. remove_first (\<lambda>d. r_network s = r_network d \<and> r_plen s = r_plen d)) (routes src) (routes dst)"
  by (simp add: nm_ip4_config_subtract_def Let_def fold_subtracts setters)

lemma unique_inv_mutate: "unique_inv config \<Longrightarrow> unique_inv (mutate ce m config)"
proof (cases m)
  case (Merge src)
  assume "unique_inv config"
  then show ?thesis
    by (simp add: Merge unique_inv_def merge_addresses merge_routes
        distinct_fold_add_address_items distinct_fold_add_route_items)
next
  case (Subtract src)
  assume "unique_inv config"
  then show ?thesis
    by (simp add: Subtract unique_inv_def subtract_addresses subtract_routes
        distinct_fold_remove_first)
next
  case (Replace src)
  assume "unique_inv config"
  then show ?thesis
    by (simp add: Replace unique_inv_def replace_fields_addresses replace_fields_routes
        distinct_fold_add_address_items distinct_fold_add_route_items)
qed (auto simp: unique_inv_def nm_ip4_config_add_address_def distinct_add_address_items
      nm_ip4_config_del_address_def distinct_remove_index resets
      nm_ip4_config_add_route_def distinct_add_route_items nm_ip4_config_del_route_def
      setters nm_ip4_config_set_never_default_def
      nm_ip4_config_add_nameserver_def nm_ip4_config_del_nameserver_def
      nm_ip4_config_add_domain_def nm_ip4_config_del_domain_def
      nm_ip4_config_add_search_def nm_ip4_config_del_search_def
      nm_ip4_config_add_nis_server_def nm_ip4_config_del_nis_server_def
      nm_ip4_config_add_wins_def nm_ip4_config_del_wins_def)

lemma unique_inv_fold: "unique_inv config \<Longrightarrow> unique_inv (fold (mutate ce) ms config)"
  by (induction ms arbitrary: config) (simp_all add: unique_inv_mutate)

lemma unique_inv_identities: "unique_inv config \<Longrightarrow> identities_unique config"
  by (simp add: unique_inv_def identities_unique_def distinct_map_pair)

text \<open>
  For a configuration created empty the identities stay unique: whatever sequence of
  mutation operations is applied to it, calls of \<^verbatim>\<open>nm_ip4_config_add_address\<close>
  and \<^verbatim>\<open>nm_ip4_config_add_route\<close> among them, no two stored addresses have the
  same address and prefix length and no two stored routes have the same network and
  prefix length. What every operation keeps is the invariant \<open>unique_inv\<close>, under
  which no two stored addresses have the same address at all.
\<close>

theorem identities_unique_reachable:
  "identities_unique (fold (mutate cmp_expiry) ms nm_ip4_config_new)"
proof -
  have "unique_inv nm_ip4_config_new"
    by (simp add: unique_inv_def nm_ip4_config_new_def)
  then show ?thesis by (intro unique_inv_identities unique_inv_fold)
qed

theorem identities_unique_reachable_witness:
  "identities_unique (fold (mutate nm_platform_ip_address_cmp_expiry)
     [Add_address (address_of (ipv4 10 0 0 5) 24 3 100 1000),
      Add_route (route_of (ipv4 10 1 0 0) 16 (ipv4 10 0 0 1) 100 3),
      Add_address (address_of (ipv4 10 0 0 5) 16 4 100 2000),
      Add_route (route_of (ipv4 10 1 0 0) 16 (ipv4 10 0 0 254) 50 4),
      Add_address (address_of (ipv4 10 0 0 6) 24 3 100 1000)]
     nm_ip4_config_new)"
  by (rule identities_unique_reachable)

text \<open>
  C8. The uniqueness of the identities is not an invariant that every mutation
  operation preserves. \<^verbatim>\<open>nm_ip4_config_capture\<close> takes the addresses of a link as
  the platform reports them; for a link with 10.0.0.5/16 and 10.0.0.5/24 the captured
  configuration has no two addresses with the same address and prefix length. On it
  \<^verbatim>\<open>nm_ip4_config_add_address\<close> with 10.0.0.5/24 and a longer lifetime finds
  10.0.0.5/16 first, since it compares the address and not the prefix length, and
  overwrites it: the configuration then holds 10.0.0.5/24 twice.
\<close>

theorem add_address_breaks_uniqueness:
  "nm_ip4_config_capture 0 [address_of (ipv4 10 0 0 5) 16 3 100 1000,
                            address_of (ipv4 10 0 0 5) 24 3 100 1000] [] None False
   = Some (nm_ip4_config_new\<lparr>addresses := [address_of (ipv4 10 0 0 5) 16 3 100 1000,
                                              address_of (ipv4 10 0 0 5) 24 3 100 1000]\<rparr>)
   \<and> identities_unique
       (nm_ip4_config_new\<lparr>addresses := [address_of (ipv4 10 0 0 5) 16 3 100 1000,
                                          address_of (ipv4 10 0 0 5) 24 3 100 1000]\<rparr>)
   \<and> mutate nm_platform_ip_address_cmp_expiry
       (Add_address (address_of (ipv4 10 0 0 5) 24 3 100 2000))
       (nm_ip4_config_new\<lparr>addresses := [address_of (ipv4 10 0 0 5) 16 3 100 1000,
                                          address_of (ipv4 10 0 0 5) 24 3 100 1000]\<rparr>)
     = nm_ip4_config_new\<lparr>addresses := [address_of (ipv4 10 0 0 5) 24 3 100 2000,
                                         address_of (ipv4 10 0 0 5) 24 3 100 1000]\<rparr>
   \<and> \<not> identities_unique
       (mutate nm_platform_ip_address_cmp_expiry
          (Add_address (address_of (ipv4 10 0 0 5) 24 3 100 2000))
          (nm_ip4_config_new\<lparr>addresses := [address_of (ipv4 10 0 0 5) 16 3 100 1000,
                                             address_of (ipv4 10 0 0 5) 24 3 100 1000]\<rparr>))"
  by (simp add: nm_ip4_config_capture_def identities_unique_def
      nm_ip4_config_add_address_def nm_ip4_config_new_def address_of_def
      addresses_are_duplicate_def add_address_item_def nm_platform_ip4_address_cmp_def
      nm_platform_ip_address_cmp_expiry_def expiry_def NM_PLATFORM_LIFETIME_PERMANENT_def
      NM_IP_CONFIG_SOURCE_KERNEL_def ipv4_def)

subsection \<open>Capture\<close>

lemma capture_default_routes_kept:
  "fst (capture_default_routes rs gw lm has) = filter (\<lambda>r. \<not> NM_PLATFORM_IP_ROUTE_IS_DEFAULT r) rs"
  by (induction rs arbitrary: gw lm has) (simp_all add: case_prod_beta)

lemma capture_default_routes_has_gateway:
  "snd (snd (snd (capture_default_routes rs gw lm has)))
   \<longleftrightarrow> has \<or> (\<exists>r \<in> set rs. NM_PLATFORM_IP_ROUTE_IS_DEFAULT r)"
  by (induction rs arbitrary: gw lm has) (auto simp: case_prod_beta)

lemma capture_default_routes_lowest:
  assumes "capture_default_routes rs gw lm has = (kept, gw', lm', has')"
  shows "lm' \<le> lm
         \<and> (\<forall>d \<in> set rs. NM_PLATFORM_IP_ROUTE_IS_DEFAULT d \<longrightarrow> lm' \<le> r_metric d)
         \<and> ((lm' = lm \<and> gw' = gw)
             \<or> (\<exists>d \<in> set rs. NM_PLATFORM_IP_ROUTE_IS_DEFAULT d \<and> r_metric d = lm' \<and> r_gateway d = gw'))"
  using assms
proof (induction rs arbitrary: gw lm has kept)
  case Nil
  then show ?case by simp
next
  case (Cons r rs)
  show ?case
  proof (cases "NM_PLATFORM_IP_ROUTE_IS_DEFAULT r")
    case False
    obtain k where "capture_default_routes rs gw lm has = (k, gw', lm', has')"
      using Cons.prems False by (auto split: prod.splits)
    from Cons.IH [OF this] have "lm' \<le> lm"
      and "\<forall>d \<in> set rs. NM_PLATFORM_IP_ROUTE_IS_DEFAULT d \<longrightarrow> lm' \<le> r_metric d"
      and "(lm' = lm \<and> gw' = gw)
             \<or> (\<exists>d \<in> set rs. NM_PLATFORM_IP_ROUTE_IS_DEFAULT d \<and> r_metric d = lm' \<and> r_gateway d = gw')"
      by blast+
    with False show ?thesis by auto
  next
    case True
    show ?thesis
    proof (cases "r_metric r < lm")
      case less: True
      have "capture_default_routes rs (r_gateway r) (r_metric r) True = (kept, gw', lm', has')"
        using Cons.prems True less by simp
      from Cons.IH [OF this] have 1: "lm' \<le> r_metric r"
        and 2: "\<forall>d \<in> set rs. NM_PLATFORM_IP_ROUTE_IS_DEFAULT d \<longrightarrow> lm' \<le> r_metric d"
        and 3: "(lm' = r_metric r \<and> gw' = r_gateway r)
             \<or> (\<exists>d \<in> set rs. NM_PLATFORM_IP_ROUTE_IS_DEFAULT d \<and> r_metric d = lm' \<and> r_gateway d = gw')"
        by blast+
      have "lm' \<le> lm" using 1 less by simp
      moreover have "\<forall>d \<in> set (r # rs). NM_PLATFORM_IP_ROUTE_IS_DEFAULT d \<longrightarrow> lm' \<le> r_metric d"
        using 1 2 by simp
      moreover have "\<exists>d \<in> set (r # rs). NM_PLATFORM_IP_ROUTE_IS_DEFAULT d \<and> r_metric d = lm' \<and> r_gateway d = gw'"
        using 3 True by auto
      ultimately show ?thesis by blast
    next
      case nless: False
      have "capture_default_routes rs gw lm True = (kept, gw', lm', has')"
        using Cons.prems True nless by simp
      from Cons.IH [OF this] have 1: "lm' \<le> lm"
        and 2: "\<forall>d \<in> set rs. NM_PLATFORM_IP_ROUTE_IS_DEFAULT d \<longrightarrow> lm' \<le> r_metric d"
        and 3: "(lm' = lm \<and> gw' = gw)
             \<or> (\<exists>d \<in> set rs. NM_PLATFORM_IP_ROUTE_IS_DEFAULT d \<and> r_metric d = lm' \<and> r_gateway d = gw')"
        by blast+
      have "lm' \<le> r_metric r" using 1 nless by simp
      then have "\<forall>d \<in> set (r # rs). NM_PLATFORM_IP_ROUTE_IS_DEFAULT d \<longrightarrow> lm' \<le> r_metric d"
        using 2 by simp
      moreover have "(lm' = lm \<and> gw' = gw)
             \<or> (\<exists>d \<in> set (r # rs). NM_PLATFORM_IP_ROUTE_IS_DEFAULT d \<and> r_metric d = lm' \<and> r_gateway d = gw')"
        using 3 by auto
      ultimately show ?thesis using 1 by blast
    qed
  qed
qed

text \<open>
  Where a default route of the link has a metric below the highest one,
  \<^verbatim>\<open>nm_ip4_config_capture\<close> takes the gateway from a default route of the lowest
  metric, and stores the routes of the link but for the default routes and the host
  routes to that gateway.
\<close>

theorem capture_gateway_lowest_metric:
  assumes "nm_ip4_config_capture master platform_addresses platform_routes read_ns capture_resolv_conf
           = Some config"
    and "d \<in> set platform_routes" and "NM_PLATFORM_IP_ROUTE_IS_DEFAULT d"
    and "r_metric d < 0xFFFFFFFF"
  shows "(\<exists>g \<in> set platform_routes. NM_PLATFORM_IP_ROUTE_IS_DEFAULT g \<and> gateway config = r_gateway g
            \<and> (\<forall>d' \<in> set platform_routes. NM_PLATFORM_IP_ROUTE_IS_DEFAULT d' \<longrightarrow> r_metric g \<le> r_metric d'))
         \<and> routes config = filter (\<lambda>r. \<not> NM_PLATFORM_IP_ROUTE_IS_DEFAULT r
                                        \<and> \<not> is_gateway_host_route (gateway config) r) platform_routes"
proof -
  obtain kept gw lm has where c: "capture_default_routes platform_routes 0 0xFFFFFFFF False = (kept, gw, lm, has)"
    by (cases "capture_default_routes platform_routes 0 0xFFFFFFFF False") auto
  have kept: "kept = filter (\<lambda>r. \<not> NM_PLATFORM_IP_ROUTE_IS_DEFAULT r) platform_routes"
    using capture_default_routes_kept [of platform_routes 0 "0xFFFFFFFF" False] c by simp
  have has: "has"
    using capture_default_routes_has_gateway [of platform_routes 0 "0xFFFFFFFF" False] c assms(2,3)
    by auto
  have cfg: "gateway config = gw"
    "routes config = filter (\<lambda>r. \<not> is_gateway_host_route gw r) kept"
    using assms(1) c has
    by (auto simp: nm_ip4_config_capture_def nm_ip4_config_new_def Let_def split: if_splits)
  from capture_default_routes_lowest [OF c]
  have l1: "\<forall>d \<in> set platform_routes. NM_PLATFORM_IP_ROUTE_IS_DEFAULT d \<longrightarrow> lm \<le> r_metric d"
    and l2: "(lm = 0xFFFFFFFF \<and> gw = 0)
         \<or> (\<exists>d \<in> set platform_routes. NM_PLATFORM_IP_ROUTE_IS_DEFAULT d \<and> r_metric d = lm \<and> r_gateway d = gw)"
    by blast+
  have "lm \<le> r_metric d" using l1 assms(2,3) by blast
  then have "lm \<noteq> 0xFFFFFFFF" using assms(4) by auto
  then obtain g where g: "g \<in> set platform_routes" "NM_PLATFORM_IP_ROUTE_IS_DEFAULT g"
    "r_metric g = lm" "r_gateway g = gw"
    using l2 by blast
  have "\<forall>d' \<in> set platform_routes. NM_PLATFORM_IP_ROUTE_IS_DEFAULT d' \<longrightarrow> r_metric g \<le> r_metric d'"
    using l1 g(3) by simp
  with g(1,2,4) cfg(1) have first: "\<exists>g \<in> set platform_routes. NM_PLATFORM_IP_ROUTE_IS_DEFAULT g \<and> gateway config = r_gateway g
            \<and> (\<forall>d' \<in> set platform_routes. NM_PLATFORM_IP_ROUTE_IS_DEFAULT d' \<longrightarrow> r_metric g \<le> r_metric d')"
    by blast
  have "routes config = filter (\<lambda>r. \<not> NM_PLATFORM_IP_ROUTE_IS_DEFAULT r
                                        \<and> \<not> is_gateway_host_route (gateway config) r) platform_routes"
    using cfg kept by (simp add: conj_commute)
  with first show ?thesis by blast
qed

text \<open>
  The link has the default routes via 192.168.1.1 with metric 100 and via
  192.168.1.254 with metric 50, a host route to 192.168.1.254 and the route of its
  subnet: the gateway is 192.168.1.254, and only the subnet route is stored.
\<close>

theorem capture_gateway_lowest_metric_witness:
  "nm_ip4_config_capture 0 [address_of (ipv4 192 168 1 10) 24 1 0 0xFFFFFFFF]
     [route_of 0 0 (ipv4 192 168 1 1) 100 1, route_of 0 0 (ipv4 192 168 1 254) 50 1,
      route_of (ipv4 192 168 1 254) 32 0 50 1, route_of (ipv4 192 168 1 0) 24 0 50 1] None False
   = Some (nm_ip4_config_new\<lparr>gateway := ipv4 192 168 1 254,
        addresses := [address_of (ipv4 192 168 1 10) 24 1 0 0xFFFFFFFF],
        routes := [route_of (ipv4 192 168 1 0) 24 0 50 1]\<rparr>)"
proof -
  let ?routes = "[route_of 0 0 (ipv4 192 168 1 1) 100 1, route_of 0 0 (ipv4 192 168 1 254) 50 1,
      route_of (ipv4 192 168 1 254) 32 0 50 1, route_of (ipv4 192 168 1 0) 24 0 50 1]"
  let ?config = "nm_ip4_config_new\<lparr>gateway := ipv4 192 168 1 254,
        addresses := [address_of (ipv4 192 168 1 10) 24 1 0 0xFFFFFFFF],
        routes := [route_of (ipv4 192 168 1 0) 24 0 50 1]\<rparr>"
  have run: "nm_ip4_config_capture 0 [address_of (ipv4 192 168 1 10) 24 1 0 0xFFFFFFFF] ?routes None False
             = Some ?config"
    by (simp add: nm_ip4_config_capture_def nm_ip4_config_new_def route_of_def ipv4_def
        NM_PLATFORM_IP_ROUTE_IS_DEFAULT_def is_gateway_host_route_def)
  have "routes ?config = filter (\<lambda>r. \<not> NM_PLATFORM_IP_ROUTE_IS_DEFAULT r
                                        \<and> \<not> is_gateway_host_route (gateway ?config) r) ?routes"
    using capture_gateway_lowest_metric [OF run, of "route_of 0 0 (ipv4 192 168 1 1) 100 1"]
    by (simp add: route_of_def NM_PLATFORM_IP_ROUTE_IS_DEFAULT_def)
  with run show ?thesis by simp
qed

text \<open>
  C3. The claim fails for a link whose default routes all have the metric
  4294967295: the loop starts with \<^verbatim>\<open>lowest_metric = G_MAXUINT32\<close> and takes
  the gateway of a default route only when its metric is strictly lower. Here the
  link has one default route, via 192.168.1.1 with that metric. The route is
  removed and the captured gateway is 0.0.0.0.
\<close>

theorem capture_gateway_highest_metric:
  "nm_ip4_config_capture 0 [address_of (ipv4 192 168 1 10) 24 1 0 0xFFFFFFFF]
     [route_of 0 0 (ipv4 192 168 1 1) 0xFFFFFFFF 1] None False
   = Some (nm_ip4_config_new\<lparr>gateway := 0,
        addresses := [address_of (ipv4 192 168 1 10) 24 1 0 0xFFFFFFFF], routes := []\<rparr>)"
  by (simp add: nm_ip4_config_capture_def nm_ip4_config_new_def route_of_def
      NM_PLATFORM_IP_ROUTE_IS_DEFAULT_def)

subsection \<open>Subtracting what was merged\<close>

text \<open>
  Merge appends to the arrays of \<open>dst\<close>, subtract removes the first match. Where
  no entry of \<open>src\<close> matches an entry of \<open>dst\<close>, what merge appends is what
  subtract removes.
\<close>

lemma remove_first_append:
  "(\<And>x. x \<in> set as \<Longrightarrow> \<not> P x) \<Longrightarrow> remove_first P (as @ ts) = as @ remove_first P ts"
  by (induction as) auto

lemma fold_remove_first_append:
  assumes "\<And>s x. s \<in> set ss \<Longrightarrow> x \<in> set as \<Longrightarrow> \<not> P s x"
  shows "fold (\<lambda>s. remove_first (P s)) ss (as @ ts) = as @ fold (\<lambda>s. remove_first (P s)) ss ts"
  using assms
proof (induction ss arbitrary: ts)
  case Nil
  show ?case by simp
next
  case (Cons s ss)
  have "remove_first (P s) (as @ ts) = as @ remove_first (P s) ts"
    using Cons.prems by (intro remove_first_append) simp
  then show ?case using Cons by simp
qed

lemma remove_first_keys:
  assumes "\<And>x. P x \<longleftrightarrow> k x = c" and "distinct (map k ts)"
  shows "k ` set (remove_first P ts) = k ` set ts - {c}"
  using assms(2)
proof (induction ts)
  case Nil
  show ?case by simp
next
  case (Cons t ts)
  show ?case
  proof (cases "P t")
    case True
    then have "k t = c" using assms(1) by simp
    with True Cons.prems show ?thesis by auto
  next
    case False
    then have "k t \<noteq> c" using assms(1) by simp
    with False Cons show ?thesis by auto
  qed
qed

lemma fold_remove_first_keys:
  assumes "\<And>s x. P s x \<longleftrightarrow> k x = k s" and "distinct (map k ts)"
  shows "k ` set (fold (\<lambda>s. remove_first (P s)) ss ts) = k ` set ts - k ` set ss"
  using assms(2)
proof (induction ss arbitrary: ts)
  case Nil
  show ?case by simp
next
  case (Cons s ss)
  have d: "distinct (map k (remove_first (P s) ts))"
    using Cons.prems by (rule distinct_remove_first)
  have "k ` set (remove_first (P s) ts) = k ` set ts - {k s}"
    using Cons.prems by (intro remove_first_keys) (simp_all add: assms(1))
  with Cons.IH [OF d] show ?case by auto
qed

lemma fold_remove_first_all:
  assumes "\<And>s x. P s x \<longleftrightarrow> k x = k s" and "distinct (map k ts)" and "k ` set ts \<subseteq> k ` set ss"
  shows "fold (\<lambda>s. remove_first (P s)) ss ts = []"
proof -
  have "k ` set (fold (\<lambda>s. remove_first (P s)) ss ts) = {}"
    using fold_remove_first_keys [of P k ts ss] assms by auto
  then show ?thesis by simp
qed

lemma subtract_cancels:
  assumes P: "\<And>s x. P s x \<longleftrightarrow> k x = k s"
    and disjoint: "k ` set as \<inter> k ` set ss = {}"
    and d: "distinct (map k ts)" and sub: "k ` set ts \<subseteq> k ` set ss"
  shows "fold (\<lambda>s. remove_first (P s)) ss (as @ ts) = as"
proof -
  have "fold (\<lambda>s. remove_first (P s)) ss (as @ ts) = as @ fold (\<lambda>s. remove_first (P s)) ss ts"
  proof (rule fold_remove_first_append)
    show "\<not> P s x" if "s \<in> set ss" "x \<in> set as" for s x
      using that disjoint P by auto
  qed
  also have "fold (\<lambda>s. remove_first (P s)) ss ts = []"
    using P d sub by (rule fold_remove_first_all)
  finally show ?thesis by simp
qed

lemma add_unique_append: "n \<notin> set as \<Longrightarrow> add_unique n (as @ ts) = as @ add_unique n ts"
  by (simp add: add_unique_def)

lemma fold_add_unique_append:
  "set as \<inter> set ns = {}
   \<Longrightarrow> fold (\<lambda>n l. if bad n then l else add_unique n l) ns (as @ ts)
       = as @ fold (\<lambda>n l. if bad n then l else add_unique n l) ns ts"
  by (induction ns arbitrary: ts) (simp_all add: add_unique_append)

lemma fold_add_unique_distinct:
  "distinct ts \<Longrightarrow> distinct (fold (\<lambda>n l. if bad n then l else add_unique n l) ns ts)"
  by (induction ns arbitrary: ts) (simp_all add: add_unique_def)

lemma fold_add_unique_set:
  "set (fold (\<lambda>n l. if bad n then l else add_unique n l) ns ts) \<subseteq> set ts \<union> set ns"
proof (induction ns arbitrary: ts)
  case Nil
  show ?case by simp
next
  case (Cons n ns)
  show ?case using Cons [of "add_unique n ts"] Cons [of ts] by (auto simp: add_unique_def)
qed

lemma values_cancel:
  assumes "set as \<inter> set ns = {}" and P: "\<And>s x. P s x \<longleftrightarrow> x = s"
  shows "fold (\<lambda>s. remove_first (P s)) ns
           (fold (\<lambda>n l. if bad n then l else add_unique n l) ns as) = as"
proof -
  let ?ts = "fold (\<lambda>n l. if bad n then l else add_unique n l) ns []"
  have m: "fold (\<lambda>n l. if bad n then l else add_unique n l) ns as = as @ ?ts"
    using fold_add_unique_append [OF assms(1), of bad "[]"] by simp
  have "fold (\<lambda>s. remove_first (P s)) ns (as @ ?ts) = as"
  proof (rule subtract_cancels [where k = "\<lambda>x. x"])
    show "P s x \<longleftrightarrow> x = s" for s x by (rule P)
    show "(\<lambda>x. x) ` set as \<inter> (\<lambda>x. x) ` set ns = {}" using assms(1) by simp
    show "distinct (map (\<lambda>x. x) ?ts)" using fold_add_unique_distinct [of "[]" bad ns] by simp
    show "(\<lambda>x. x) ` set ?ts \<subseteq> (\<lambda>x. x) ` set ns" using fold_add_unique_set [of bad ns "[]"] by simp
  qed
  with m show ?thesis by simp
qed

lemma add_address_items_append:
  "a_address new \<notin> a_address ` set as
   \<Longrightarrow> add_address_items ce (as @ ts) new = as @ add_address_items ce ts new"
  by (induction as) (auto simp: addresses_are_duplicate_def)

lemma fold_add_address_items_append:
  "a_address ` set as \<inter> a_address ` set bs = {}
   \<Longrightarrow> fold (\<lambda>a l. add_address_items ce l a) bs (as @ ts)
       = as @ fold (\<lambda>a l. add_address_items ce l a) bs ts"
  by (induction bs arbitrary: ts) (simp_all add: add_address_items_append)

lemma add_address_item_key:
  "a_address item = a_address new
   \<Longrightarrow> (a_address (add_address_item ce item new), a_plen (add_address_item ce item new))
       \<in> {(a_address item, a_plen item), (a_address new, a_plen new)}"
  by (simp add: add_address_item_def Let_def)

lemma add_address_items_keys:
  "(\<lambda>a. (a_address a, a_plen a)) ` set (add_address_items ce ts new)
   \<subseteq> (\<lambda>a. (a_address a, a_plen a)) ` set ts \<union> {(a_address new, a_plen new)}"
proof (induction ts)
  case Nil
  show ?case by simp
next
  case (Cons t ts)
  show ?case
  proof (cases "a_address t = a_address new")
    case True
    with add_address_item_key [OF True, of ce] show ?thesis
      by (auto simp: addresses_are_duplicate_def)
  next
    case False
    with Cons show ?thesis by (auto simp: addresses_are_duplicate_def)
  qed
qed

lemma fold_add_address_items_keys:
  "(\<lambda>a. (a_address a, a_plen a)) ` set (fold (\<lambda>a l. add_address_items ce l a) bs ts)
   \<subseteq> (\<lambda>a. (a_address a, a_plen a)) ` set ts \<union> (\<lambda>a. (a_address a, a_plen a)) ` set bs"
proof (induction bs arbitrary: ts)
  case Nil
  show ?case by simp
next
  case (Cons b bs)
  let ?k = "\<lambda>a. (a_address a, a_plen a)"
  have "?k ` set (fold (\<lambda>a l. add_address_items ce l a) bs (add_address_items ce ts b))
        \<subseteq> ?k ` set (add_address_items ce ts b) \<union> ?k ` set bs"
    by (rule Cons)
  moreover have "?k ` set (add_address_items ce ts b) \<subseteq> ?k ` set ts \<union> {?k b}"
    by (rule add_address_items_keys)
  ultimately have "?k ` set (fold (\<lambda>a l. add_address_items ce l a) bs (add_address_items ce ts b))
        \<subseteq> ?k ` set ts \<union> ({?k b} \<union> ?k ` set bs)"
    by blast
  then show ?case by simp
qed

lemma addresses_cancel:
  assumes "a_address ` set as \<inter> a_address ` set bs = {}"
  shows "fold (\<lambda>s. remove_first (\<lambda>d. a_address s = a_address d \<and> a_plen s = a_plen d)) bs
           (fold (\<lambda>a l. add_address_items ce l a) bs as) = as"
proof -
  let ?k = "\<lambda>a. (a_address a, a_plen a)"
  let ?ts = "fold (\<lambda>a l. add_address_items ce l a) bs []"
  have m: "fold (\<lambda>a l. add_address_items ce l a) bs as = as @ ?ts"
    using fold_add_address_items_append [OF assms, of ce "[]"] by simp
  have "fold (\<lambda>s. remove_first (\<lambda>d. a_address s = a_address d \<and> a_plen s = a_plen d)) bs (as @ ?ts) = as"
  proof (rule subtract_cancels [where k = ?k])
    show "(a_address s = a_address x \<and> a_plen s = a_plen x) \<longleftrightarrow> ?k x = ?k s" for s x by auto
    show "?k ` set as \<inter> ?k ` set bs = {}" using assms by auto
    show "distinct (map ?k ?ts)"
      using distinct_fold_add_address_items [of "[]" ce bs] by (simp add: distinct_map_pair)
    show "?k ` set ?ts \<subseteq> ?k ` set bs"
      using fold_add_address_items_keys [of ce bs "[]"] by simp
  qed
  with m show ?thesis by simp
qed

lemma add_route_items_append:
  "(r_network new, r_plen new) \<notin> (\<lambda>r. (r_network r, r_plen r)) ` set as
   \<Longrightarrow> add_route_items (as @ ts) new = as @ add_route_items ts new"
  by (induction as) (auto simp: routes_are_duplicate_def)

lemma fold_add_route_items_append:
  "(\<lambda>r. (r_network r, r_plen r)) ` set as \<inter> (\<lambda>r. (r_network r, r_plen r)) ` set bs = {}
   \<Longrightarrow> fold (\<lambda>r l. if 0 < r_plen r then add_route_items l r else l) bs (as @ ts)
       = as @ fold (\<lambda>r l. if 0 < r_plen r then add_route_items l r else l) bs ts"
  by (induction bs arbitrary: ts) (simp_all add: add_route_items_append)

lemma fold_add_route_items_keys:
  "set (map (\<lambda>r. (r_network r, r_plen r)) (fold (\<lambda>r l. if 0 < r_plen r then add_route_items l r else l) bs ts))
   \<subseteq> set (map (\<lambda>r. (r_network r, r_plen r)) ts) \<union> set (map (\<lambda>r. (r_network r, r_plen r)) bs)"
proof (induction bs arbitrary: ts)
  case Nil
  show ?case by simp
next
  case (Cons b bs)
  show ?case
    using Cons [of "add_route_items ts b"] Cons [of ts] 
    by (auto simp: add_route_items_keys split: if_splits)
qed

lemma routes_cancel:
  assumes "(\<lambda>r. (r_network r, r_plen r)) ` set as \<inter> (\<lambda>r. (r_network r, r_plen r)) ` set bs = {}"
  shows "fold (\<lambda>s. remove_first (\<lambda>d. r_network s = r_network d \<and> r_plen s = r_plen d)) bs
           (fold (\<lambda>r l. if 0 < r_plen r then add_route_items l r else l) bs as) = as"
proof -
  let ?k = "\<lambda>r. (r_network r, r_plen r)"
  let ?ts = "fold (\<lambda>r l. if 0 < r_plen r then add_route_items l r else l) bs []"
  have m: "fold (\<lambda>r l. if 0 < r_plen r then add_route_items l r else l) bs as = as @ ?ts"
    using fold_add_route_items_append [OF assms, of "[]"] by simp
  have "fold (\<lambda>s. remove_first (\<lambda>d. r_network s = r_network d \<and> r_plen s = r_plen d)) bs (as @ ?ts) = as"
  proof (rule subtract_cancels [where k = ?k])
    show "(r_network s = r_network x \<and> r_plen s = r_plen x) \<longleftrightarrow> ?k x = ?k s" for s x by auto
    show "?k ` set as \<inter> ?k ` set bs = {}" using assms by auto
    show "distinct (map ?k ?ts)"
      using distinct_fold_add_route_items [of "[]" bs] by simp
    show "?k ` set ?ts \<subseteq> ?k ` set bs"
      using fold_add_route_items_keys [of bs "[]"] by simp
  qed
  with m show ?thesis by simp
qed

lemma merge_nameservers:
  "nameservers (nm_ip4_config_merge ce dst src)
     = fold (\<lambda>n l. if n = 0 then l else add_unique n l) (nameservers src) (nameservers dst)"
  by (simp add: nm_ip4_config_merge_def Let_def add_updates fold_updates setters split: option.splits)

lemma merge_domains:
  "domains (nm_ip4_config_merge ce dst src)
     = fold (\<lambda>n l. if n = [] then l else add_unique n l) (domains src) (domains dst)"
  by (simp add: nm_ip4_config_merge_def Let_def add_updates fold_updates setters split: option.splits)

lemma merge_searches:
  "searches (nm_ip4_config_merge ce dst src)
     = fold (\<lambda>n l. if n = [] then l else add_unique n l) (searches src) (searches dst)"
  by (simp add: nm_ip4_config_merge_def Let_def add_updates fold_updates setters split: option.splits)

lemma merge_nis:
  "nis (nm_ip4_config_merge ce dst src)
     = fold (\<lambda>n l. if False then l else add_unique n l) (nis src) (nis dst)"
  by (simp add: nm_ip4_config_merge_def Let_def add_updates fold_updates setters split: option.splits)

lemma merge_wins:
  "wins (nm_ip4_config_merge ce dst src)
     = fold (\<lambda>n l. if n = 0 then l else add_unique n l) (wins src) (wins dst)"
  by (simp add: nm_ip4_config_merge_def Let_def add_updates fold_updates setters split: option.splits)

lemma set_gateway_upd: "nm_ip4_config_set_gateway d g = d\<lparr>gateway := g\<rparr>"
  by (cases d) (simp add: nm_ip4_config_set_gateway_def)

lemma set_mtu_upd:
  "nm_ip4_config_set_mtu d m s
   = d\<lparr>mtu := (if mtu_source d < s \<or> (s = mtu_source d \<and> (mtu d = 0 \<or> m < mtu d)) then m else mtu d),
       mtu_source := (if mtu_source d < s then s else mtu_source d)\<rparr>"
  by (cases d) (auto simp: nm_ip4_config_set_mtu_def)

lemma if_gateway_upd:
  "(if c then d\<lparr>gateway := v\<rparr> else d) = d\<lparr>gateway := (if c then v else gateway d)\<rparr>"
  by (cases d) simp

lemma if_mss_upd:
  "(if c then d\<lparr>mss := v\<rparr> else d) = d\<lparr>mss := (if c then v else mss d)\<rparr>"
  by (cases d) simp

lemma if_nis_domain_upd:
  "(if c then d\<lparr>nis_domain := v\<rparr> else d) = d\<lparr>nis_domain := (if c then v else nis_domain d)\<rparr>"
  by (cases d) simp

lemma if_mtu_upd:
  "(if c then d\<lparr>mtu := v, mtu_source := w\<rparr> else d)
   = d\<lparr>mtu := (if c then v else mtu d), mtu_source := (if c then w else mtu_source d)\<rparr>"
  by (cases d) simp

lemmas scalar_updates = set_gateway_upd set_mtu_upd nm_ip4_config_set_mss_def
  nm_ip4_config_set_nis_domain_def if_gateway_upd if_mss_upd if_nis_domain_upd if_mtu_upd

lemma subtract_nameservers:
  "nameservers (nm_ip4_config_subtract dst src)
     = fold (\<lambda>s. remove_first (\<lambda>x. x = s)) (nameservers src) (nameservers dst)"
  by (simp add: nm_ip4_config_subtract_def Let_def fold_subtracts scalar_updates)

lemma subtract_domains:
  "domains (nm_ip4_config_subtract dst src)
     = fold (\<lambda>s. remove_first (\<lambda>x. s = x)) (domains src) (domains dst)"
  by (simp add: nm_ip4_config_subtract_def Let_def fold_subtracts scalar_updates)

lemma subtract_searches:
  "searches (nm_ip4_config_subtract dst src)
     = fold (\<lambda>s. remove_first (\<lambda>x. s = x)) (searches src) (searches dst)"
  by (simp add: nm_ip4_config_subtract_def Let_def fold_subtracts scalar_updates)

lemma subtract_nis:
  "nis (nm_ip4_config_subtract dst src)
     = fold (\<lambda>s. remove_first (\<lambda>x. x = s)) (nis src) (nis dst)"
  by (simp add: nm_ip4_config_subtract_def Let_def fold_subtracts scalar_updates)

lemma subtract_wins:
  "wins (nm_ip4_config_subtract dst src)
     = fold (\<lambda>s. remove_first (\<lambda>x. x = s)) (wins src) (wins dst)"
  by (simp add: nm_ip4_config_subtract_def Let_def fold_subtracts scalar_updates)

lemma subtract_gateway:
  "gateway (nm_ip4_config_subtract dst src)
     = (if fold (\<lambda>s. remove_first (\<lambda>d. a_address s = a_address d \<and> a_plen s = a_plen d)) (addresses src) (addresses dst) = [] then 0
        else if gateway src = gateway dst then 0 else gateway dst)"
  by (simp add: nm_ip4_config_subtract_def Let_def fold_subtracts scalar_updates)

lemma subtract_nis_domain:
  "nis_domain (nm_ip4_config_subtract dst src)
     = (if nis_domain src = nis_domain dst then None else nis_domain dst)"
  by (simp add: nm_ip4_config_subtract_def Let_def fold_subtracts scalar_updates)

text \<open>
  C6, as the claim states it, fails. \<open>A\<close> has the gateway 10.0.0.1, the address
  10.0.0.5/24, MSS 1400 and MTU 1500; \<open>B\<close> has the gateway 10.0.0.254, the same
  address, MSS 1300 and MTU 1400. Merge adds nothing to the addresses of \<open>A\<close>,
  subtract removes the address, and with the last address the gateway. The result
  feeds other bytes to the checksum than \<open>A\<close> does.
\<close>

theorem subtract_merge_counterexample:
  "nm_ip4_config_subtract (nm_ip4_config_merge nm_platform_ip_address_cmp_expiry
      (nm_ip4_config_new\<lparr>gateway := ipv4 10 0 0 1,
         addresses := [address_of (ipv4 10 0 0 5) 24 3 100 1000], mss := 1400, mtu := 1500, mtu_source := 3\<rparr>)
      (nm_ip4_config_new\<lparr>gateway := ipv4 10 0 0 254,
         addresses := [address_of (ipv4 10 0 0 5) 24 3 100 1000], mss := 1300, mtu := 1400, mtu_source := 3\<rparr>))
      (nm_ip4_config_new\<lparr>gateway := ipv4 10 0 0 254,
         addresses := [address_of (ipv4 10 0 0 5) 24 3 100 1000], mss := 1300, mtu := 1400, mtu_source := 3\<rparr>)
   = nm_ip4_config_new\<lparr>mss := 1400, mtu := 1500, mtu_source := 3\<rparr>
   \<and> \<not> nm_ip4_config_equal (nm_ip4_config_new\<lparr>mss := 1400, mtu := 1500, mtu_source := 3\<rparr>)
      (nm_ip4_config_new\<lparr>gateway := ipv4 10 0 0 1,
         addresses := [address_of (ipv4 10 0 0 5) 24 3 100 1000], mss := 1400, mtu := 1500, mtu_source := 3\<rparr>)"
proof -
  have run: "nm_ip4_config_subtract (nm_ip4_config_merge nm_platform_ip_address_cmp_expiry
      (nm_ip4_config_new\<lparr>gateway := ipv4 10 0 0 1,
         addresses := [address_of (ipv4 10 0 0 5) 24 3 100 1000], mss := 1400, mtu := 1500, mtu_source := 3\<rparr>)
      (nm_ip4_config_new\<lparr>gateway := ipv4 10 0 0 254,
         addresses := [address_of (ipv4 10 0 0 5) 24 3 100 1000], mss := 1300, mtu := 1400, mtu_source := 3\<rparr>))
      (nm_ip4_config_new\<lparr>gateway := ipv4 10 0 0 254,
         addresses := [address_of (ipv4 10 0 0 5) 24 3 100 1000], mss := 1300, mtu := 1400, mtu_source := 3\<rparr>)
   = nm_ip4_config_new\<lparr>mss := 1400, mtu := 1500, mtu_source := 3\<rparr>"
    by (simp add: nm_ip4_config_subtract_def nm_ip4_config_merge_def nm_ip4_config_new_def
        nm_ip4_config_add_address_def addresses_are_duplicate_def add_address_item_def
        nm_platform_ip4_address_cmp_def setters subtract_address_def
        nm_ip4_config_del_address_def g_array_remove_index_def ipv4_def address_of_def)
  have ne: "\<not> nm_ip4_config_equal (nm_ip4_config_new\<lparr>mss := 1400, mtu := 1500, mtu_source := 3\<rparr>)
      (nm_ip4_config_new\<lparr>gateway := ipv4 10 0 0 1,
         addresses := [address_of (ipv4 10 0 0 5) 24 3 100 1000], mss := 1400, mtu := 1500, mtu_source := 3\<rparr>)"
    by (simp add: nm_ip4_config_equal_def nm_ip4_config_hash_def nm_ip4_config_new_def hash_u32_def)
  from run ne show ?thesis by simp
qed

text \<open>
  C6, amended. Let \<open>A\<close> and \<open>B\<close> differ in gateway, MTU and MSS; let no
  address of \<open>B\<close> be an address of \<open>A\<close>, no route of \<open>B\<close> have the
  network and prefix length of a route of \<open>A\<close>, and no nameserver, domain,
  search, NIS server or WINS server of \<open>B\<close> be one of \<open>A\<close>; let at most one
  of the two have a NIS domain; and let \<open>A\<close> have an address or no gateway. Then
  subtracting \<open>B\<close> from the merge of \<open>A\<close> and \<open>B\<close> gives a
  configuration that \<^verbatim>\<open>nm_ip4_config_equal\<close> finds equal to \<open>A\<close>.
\<close>

theorem subtract_merge_cancels:
  assumes "gateway a \<noteq> gateway b" and "mtu a \<noteq> mtu b" and "mss a \<noteq> mss b"
    and "a_address ` set (addresses a) \<inter> a_address ` set (addresses b) = {}"
    and "(\<lambda>r. (r_network r, r_plen r)) ` set (routes a)
           \<inter> (\<lambda>r. (r_network r, r_plen r)) ` set (routes b) = {}"
    and "set (nameservers a) \<inter> set (nameservers b) = {}"
    and "set (domains a) \<inter> set (domains b) = {}"
    and "set (searches a) \<inter> set (searches b) = {}"
    and "set (nis a) \<inter> set (nis b) = {}"
    and "set (wins a) \<inter> set (wins b) = {}"
    and "nis_domain a = None \<or> nis_domain b = None"
    and "gateway a = 0 \<or> addresses a \<noteq> []"
  shows "nm_ip4_config_equal (nm_ip4_config_subtract (nm_ip4_config_merge cmp_expiry a b) b) a"
proof -
  let ?r = "nm_ip4_config_subtract (nm_ip4_config_merge cmp_expiry a b) b"
  have addresses: "addresses ?r = addresses a"
    using assms(4) by (simp add: subtract_addresses merge_addresses addresses_cancel)
  have routes: "routes ?r = routes a"
    using assms(5) by (simp add: subtract_routes merge_routes routes_cancel)
  have nameservers: "nameservers ?r = nameservers a"
    unfolding subtract_nameservers merge_nameservers
    using assms(6) by (rule values_cancel) simp
  have domains: "domains ?r = domains a"
    unfolding subtract_domains merge_domains
    using assms(7) by (rule values_cancel) auto
  have searches: "searches ?r = searches a"
    unfolding subtract_searches merge_searches
    using assms(8) by (rule values_cancel) auto
  have nis: "nis ?r = nis a"
    unfolding subtract_nis merge_nis
    using assms(9) by (rule values_cancel) simp
  have wins: "wins ?r = wins a"
    unfolding subtract_wins merge_wins
    using assms(10) by (rule values_cancel) simp
  have gateway: "gateway ?r = gateway a"
    using assms(1,12) addresses_cancel [OF assms(4), of cmp_expiry]
    by (auto simp: subtract_gateway merge_gateway merge_addresses)
  have nis_domain: "nis_domain ?r = nis_domain a"
    using assms(11) by (auto simp: subtract_nis_domain merge_nis_domain split: option.splits)
  show ?thesis
    by (simp add: nm_ip4_config_equal_def nm_ip4_config_hash_def addresses routes nameservers
        domains searches nis wins gateway nis_domain)
qed

text \<open>
  \<open>A\<close> has the gateway 10.0.0.1, the address 10.0.0.5/24, a route to 10.1.0.0/16
  and the nameserver 8.8.8.8; \<open>B\<close> has the gateway 10.0.0.254, the address
  10.0.0.6/24, a route to 10.2.0.0/16, the nameserver 8.8.4.4, a domain and a NIS
  domain.
\<close>

theorem subtract_merge_cancels_witness:
  "nm_ip4_config_equal
     (nm_ip4_config_subtract
        (nm_ip4_config_merge nm_platform_ip_address_cmp_expiry
           (nm_ip4_config_new\<lparr>gateway := ipv4 10 0 0 1,
              addresses := [address_of (ipv4 10 0 0 5) 24 3 100 1000],
              routes := [route_of (ipv4 10 1 0 0) 16 (ipv4 10 0 0 1) 100 3],
              nameservers := [ipv4 8 8 8 8], mss := 1400, mtu := 1500, mtu_source := 3\<rparr>)
           (nm_ip4_config_new\<lparr>gateway := ipv4 10 0 0 254,
              addresses := [address_of (ipv4 10 0 0 6) 24 3 100 1000],
              routes := [route_of (ipv4 10 2 0 0) 16 (ipv4 10 0 0 254) 100 3],
              nameservers := [ipv4 8 8 4 4], domains := [''example.com''], mss := 1300,
              nis_domain := Some ''nis.example'', mtu := 1400, mtu_source := 3\<rparr>))
        (nm_ip4_config_new\<lparr>gateway := ipv4 10 0 0 254,
           addresses := [address_of (ipv4 10 0 0 6) 24 3 100 1000],
           routes := [route_of (ipv4 10 2 0 0) 16 (ipv4 10 0 0 254) 100 3],
           nameservers := [ipv4 8 8 4 4], domains := [''example.com''], mss := 1300,
           nis_domain := Some ''nis.example'', mtu := 1400, mtu_source := 3\<rparr>))
     (nm_ip4_config_new\<lparr>gateway := ipv4 10 0 0 1,
        addresses := [address_of (ipv4 10 0 0 5) 24 3 100 1000],
        routes := [route_of (ipv4 10 1 0 0) 16 (ipv4 10 0 0 1) 100 3],
        nameservers := [ipv4 8 8 8 8], mss := 1400, mtu := 1500, mtu_source := 3\<rparr>)"
  by (rule subtract_merge_cancels)
    (simp_all add: nm_ip4_config_new_def address_of_def route_of_def ipv4_def)

end
